theory Spec2Isabelle
  imports Main
begin

section \<open>Warm-up replay: \<open>run_warmup_queries\<close> of MapDServer.cpp\<close>

subsection \<open>The handler the replay drives\<close>

text \<open>
  A call into the handler either returns or leaves by a C++ exception. The replay
  catches with \<open>catch (...)\<close>, so the kind of the exception is irrelevant.
\<close>

datatype completion = Returns | Throws

type_synonym TSessionId = string

text \<open>
  \<open>MapDHandler\<close> (ThriftHandler/MapDHandler.h) is not among the sources; the replay uses
  four of its members, taken here as parameters over an abstract handler state \<open>'h\<close>:
  \<^item> \<open>getInvalidSessionId()\<close>, the sentinel;
  \<^item> \<open>connect(TSessionId& session, user, passwd, dbname)\<close>: given the handler state,
    the value of the public field \<open>super_user_rights_\<close> and the incoming value of the
    reference argument, it yields how the call ended, the value left in the reference
    argument, and the new handler state;
  \<^item> \<open>sql_execute(ret, session, query, true, "", -1)\<close> (the result \<open>ret\<close> is never read,
    the last three arguments are constants);
  \<^item> \<open>disconnect(session)\<close>.
\<close>

record 'h MapDHandler =
  getInvalidSessionId :: TSessionId
  connect :: "'h \<Rightarrow> bool \<Rightarrow> TSessionId \<Rightarrow> string \<Rightarrow> string \<Rightarrow> string
                \<Rightarrow> completion \<times> TSessionId \<times> 'h"
  sql_execute :: "'h \<Rightarrow> TSessionId \<Rightarrow> string \<Rightarrow> completion \<times> 'h"
  disconnect :: "'h \<Rightarrow> TSessionId \<Rightarrow> completion \<times> 'h"

text \<open>What the replay does that is visible outside it, in program order.\<close>

datatype event =
    LogInfo string                       \<comment> \<open>line 162, with the script path\<close>
  | FileOpen string                      \<comment> \<open>line 173\<close>
  | FileClose                            \<comment> \<open>line 151\<close>
  | Connect bool string string string completion TSessionId
      \<comment> \<open>line 183: \<open>super_user_rights_\<close> at the call, user, password, database,
          how the call ended, the session id it left\<close>
  | SqlExecute TSessionId string completion   \<comment> \<open>line 197\<close>
  | Disconnect TSessionId completion     \<comment> \<open>lines 153 and 202\<close>
  | LogSyntaxWarning string string       \<comment> \<open>line 205: script path, ignored line\<close>
  | LogWarmupIncomplete                  \<comment> \<open>line 212\<close>

text \<open>
  The variables of \<open>run_warmup_queries\<close> that live across loop iterations, together with
  the handler: its abstract state and its public flag \<open>super_user_rights_\<close>.
\<close>

record 'h warmup_state =
  hstate :: 'h
  super_user_rights :: bool
  sessionId :: TSessionId
  user_keyword :: string
  user_name :: string
  db_name :: string

subsection \<open>Reading the script\<close>

text \<open>
  \<open>std::getline(query_file, line)\<close> on the unread rest of the file: it fails when nothing
  is left, and otherwise takes the characters up to the next newline (or the end of the
  file) and consumes that newline. A file that could not be opened behaves as the empty
  one: every read fails.
\<close>

definition getline :: "string \<Rightarrow> (string \<times> string) option" where
  "getline s =
     (if s = [] then None
      else Some (takeWhile (\<lambda>c. c \<noteq> CHR 0x0A) s, drop 1 (dropWhile (\<lambda>c. c \<noteq> CHR 0x0A) s)))"

text \<open>\<open>std::isspace\<close> in the default locale, which \<open>operator>>\<close> uses to skip and to stop.\<close>

definition isspace :: "char \<Rightarrow> bool" where
  "isspace c = (c \<in> set [CHR 0x20, CHR 0x09, CHR 0x0A, CHR 0x0B, CHR 0x0C, CHR 0x0D])"

text \<open>
  \<open>iss >> word\<close> on the unread rest of the line: leading whitespace is skipped; when
  nothing is left the extraction fails and the target keeps its value (\<open>None\<close>);
  otherwise the target receives the characters up to the next whitespace.
\<close>

definition extract_word :: "string \<Rightarrow> (string \<times> string) option" where
  "extract_word s =
     (let s' = dropWhile isspace s
      in if s' = [] then None
         else Some (takeWhile (\<lambda>c. \<not> isspace c) s', dropWhile (\<lambda>c. \<not> isspace c) s'))"

text \<open>
  Lines 178-179, \<open>iss >> user_keyword >> user_name >> db_name\<close>. The three targets are
  declared outside the loop (line 166) and are never cleared, so a target whose
  extraction fails still holds what an earlier line put there; once one extraction has
  failed the later ones fail too.
\<close>

definition read_header :: "string \<Rightarrow> 'h warmup_state \<Rightarrow> 'h warmup_state" where
  "read_header db_info st =
     (case extract_word db_info of
        None \<Rightarrow> st
      | Some (w1, r1) \<Rightarrow>
          (case extract_word r1 of
             None \<Rightarrow> st\<lparr>user_keyword := w1\<rparr>
           | Some (w2, r2) \<Rightarrow>
               (case extract_word r2 of
                  None \<Rightarrow> st\<lparr>user_keyword := w1, user_name := w2\<rparr>
                | Some (w3, r3) \<Rightarrow> st\<lparr>user_keyword := w1, user_name := w2, db_name := w3\<rparr>)))"

text \<open>Line 180, \<open>user_keyword.compare(0, 4, "USER") == 0\<close>: the first four characters
  of the keyword (fewer when it is shorter) are compared with \<open>USER\<close>.\<close>

definition is_user_keyword :: "string \<Rightarrow> bool" where
  "is_user_keyword kw = (take 4 kw = ''USER'')"

lemma getline_shorter:
  "getline s = Some (l, r) \<Longrightarrow> length r < length s"
proof -
  assume a: "getline s = Some (l, r)"
  then have ne: "s \<noteq> []" and r: "r = drop 1 (dropWhile (\<lambda>c. c \<noteq> CHR 0x0A) s)"
    by (auto simp: getline_def split: if_splits)
  have "length (dropWhile (\<lambda>c. c \<noteq> CHR 0x0A) s) \<le> length s"
    by (rule length_dropWhile_le)
  with ne r show ?thesis
    by (cases "dropWhile (\<lambda>c. c \<noteq> CHR 0x0A) s") auto
qed

subsection \<open>The two loops\<close>

text \<open>
  Lines 189-199, the inner loop over the statements of one block, from the unread rest
  of the file. It ends at a line that is exactly \<open>}\<close>, at the end of the file, or with
  the exception of a statement. The result is the events, how the loop ended, what is
  left of the file, and the state.
\<close>

function query_loop ::
  "'h MapDHandler \<Rightarrow> string \<Rightarrow> 'h warmup_state
     \<Rightarrow> event list \<times> completion \<times> string \<times> 'h warmup_state" where
  "query_loop h qf st =
     (case getline qf of
        None \<Rightarrow> ([], Returns, qf, st)
      | Some (single_query, rest) \<Rightarrow>
          if single_query = [] then query_loop h rest st
          else if single_query = ''}'' then ([], Returns, rest, st)
          else
            (case sql_execute h (hstate st) (sessionId st) single_query of
               (Throws, hs) \<Rightarrow>
                 ([SqlExecute (sessionId st) single_query Throws], Throws, rest,
                  st\<lparr>hstate := hs\<rparr>)
             | (Returns, hs) \<Rightarrow>
                 (case query_loop h rest (st\<lparr>hstate := hs\<rparr>) of
                    (evs, c, rest', st') \<Rightarrow>
                      (SqlExecute (sessionId st) single_query Returns # evs, c, rest', st'))))"
  by pat_completeness auto
termination
  by (relation "measure (\<lambda>(h, qf, st). length qf)") (auto dest: getline_shorter)

declare query_loop.simps [simp del]

lemma query_loop_rest_le:
  "query_loop h qf st = (evs, c, rest, st') \<Longrightarrow> length rest \<le> length qf"
proof (induction h qf st arbitrary: evs c rest st' rule: query_loop.induct)
  case (1 h qf st)
  show ?case
  proof (cases "getline qf")
    case None
    with "1.prems" show ?thesis by (simp add: query_loop.simps [of h qf])
  next
    case (Some p)
    obtain single_query r where p: "p = (single_query, r)" by (cases p)
    have lt: "length r < length qf"
      using Some p by (auto dest: getline_shorter)
    show ?thesis
    proof (cases "single_query = []")
      case True
      with "1.IH"(1) [OF Some [unfolded p] refl True] "1.prems" Some p lt
      show ?thesis by (simp add: query_loop.simps [of h qf] split: prod.splits)
    next
      case ne: False
      show ?thesis
      proof (cases "single_query = ''}''")
        case True
        with "1.prems" Some p ne lt show ?thesis by (simp add: query_loop.simps [of h qf])
      next
        case nb: False
        obtain cq hs where ex: "sql_execute h (hstate st) (sessionId st) single_query = (cq, hs)"
          by (cases "sql_execute h (hstate st) (sessionId st) single_query")
        show ?thesis
        proof (cases cq)
          case Throws
          with "1.prems" Some p ne nb ex lt show ?thesis
            by (simp add: query_loop.simps [of h qf])
        next
          case Returns
          obtain evs2 c2 rest2 st2 where
            rec: "query_loop h r (st\<lparr>hstate := hs\<rparr>) = (evs2, c2, rest2, st2)"
            by (cases "query_loop h r (st\<lparr>hstate := hs\<rparr>)") auto
          have "length rest2 \<le> length r"
            using "1.IH"(2) [OF Some [unfolded p] refl ne nb ex [unfolded Returns, symmetric] refl rec] .
          moreover have "rest = rest2"
            using "1.prems" Some p ne nb ex Returns rec
            by (simp add: query_loop.simps [of h qf])
          ultimately show ?thesis using lt by simp
        qed
      qed
    qed
  qed
qed

text \<open>
  Lines 174-210, the outer loop over header lines, from the unread rest of the file. An
  exception of \<open>connect\<close>, of a statement or of \<open>disconnect\<close> leaves the loop at once:
  the assignments that follow the throwing call (lines 184 and 203) are not executed.
  The result is the events, how the loop ended, and the state at that point.
\<close>

function warmup_loop ::
  "'h MapDHandler \<Rightarrow> string \<Rightarrow> string \<Rightarrow> 'h warmup_state
     \<Rightarrow> event list \<times> completion \<times> 'h warmup_state" where
  "warmup_loop h query_file_path qf st =
     (case getline qf of
        None \<Rightarrow> ([], Returns, st)
      | Some (db_info, rest) \<Rightarrow>
          if db_info = [] then warmup_loop h query_file_path rest st
          else
            let st1 = read_header db_info st in
            if is_user_keyword (user_keyword st1) then
              (case connect h (hstate st1) True (sessionId st1) (user_name st1) [] (db_name st1) of
                 (Throws, sid, hs) \<Rightarrow>
                   ([Connect True (user_name st1) [] (db_name st1) Throws sid], Throws,
                    st1\<lparr>hstate := hs, super_user_rights := True, sessionId := sid\<rparr>)
               | (Returns, sid, hs) \<Rightarrow>
                   (case query_loop h rest
                           (st1\<lparr>hstate := hs, super_user_rights := False, sessionId := sid\<rparr>) of
                      (evs, Throws, rest', st2) \<Rightarrow>
                        (Connect True (user_name st1) [] (db_name st1) Returns sid # evs,
                         Throws, st2)
                    | (evs, Returns, rest', st2) \<Rightarrow>
                        (case disconnect h (hstate st2) (sessionId st2) of
                           (Throws, hs') \<Rightarrow>
                             (Connect True (user_name st1) [] (db_name st1) Returns sid # evs
                                @ [Disconnect (sessionId st2) Throws],
                              Throws, st2\<lparr>hstate := hs'\<rparr>)
                         | (Returns, hs') \<Rightarrow>
                             (case warmup_loop h query_file_path rest'
                                     (st2\<lparr>hstate := hs', sessionId := getInvalidSessionId h\<rparr>) of
                                (evs', c, st3) \<Rightarrow>
                                  (Connect True (user_name st1) [] (db_name st1) Returns sid # evs
                                     @ Disconnect (sessionId st2) Returns # evs',
                                   c, st3)))))
            else
              (case warmup_loop h query_file_path rest st1 of
                 (evs, c, st2) \<Rightarrow> (LogSyntaxWarning query_file_path db_info # evs, c, st2)))"
  by pat_completeness auto
termination
proof (relation "measure (\<lambda>(h, query_file_path, qf, st). length qf)")
  show "wf (measure (\<lambda>(h, query_file_path, qf, st). length qf))" by simp
qed (auto dest!: getline_shorter query_loop_rest_le [OF sym])

declare warmup_loop.simps [simp del]

subsection \<open>The cleanup action and the routine\<close>

text \<open>Lines 150-155: the file is closed first; the session is disconnected unless the
  variable holds the sentinel.\<close>

definition releaseWarmupSession ::
  "'h MapDHandler \<Rightarrow> 'h warmup_state \<Rightarrow> event list \<times> completion \<times> 'h warmup_state" where
  "releaseWarmupSession h st =
     (if sessionId st \<noteq> getInvalidSessionId h then
        (case disconnect h (hstate st) (sessionId st) of
           (c, hs) \<Rightarrow> ([FileClose, Disconnect (sessionId st) c], c, st\<lparr>hstate := hs\<rparr>))
      else ([FileClose], Returns, st))"

text \<open>
  How \<open>run_warmup_queries\<close> ends: it returns to \<open>main\<close>, or the process is ended by
  \<open>std::terminate\<close>.
\<close>

datatype outcome = Returned | Terminated

record 'h warmup_result =
  events :: "event list"
  outcome :: outcome
  handler_state :: 'h
  handler_super_user_rights :: bool

text \<open>
  Modelled from the spec: \<open>ScopeGuard\<close> (Shared/scope.h is not among the sources) is the
  "scoped cleanup action" that runs "on any exit path from the overall replay routine".
  Its destructor runs the action when the block that declares the guard is left, on the
  values the captured variables have at that moment. Given how the block was left and
  how the action ended, the result is how control goes on: as the block was left when
  the action returns, and not at all (\<open>None\<close>, the process is ended by \<open>std::terminate\<close>)
  when the action throws. C++ leaves no choice when the block is being left by an
  exception; an exception that leaves a destructor outside unwinding ends the process
  too, destructors being \<open>noexcept\<close>, and \<open>warmup_loop_returns_invalid\<close> below shows that
  this case does not arise in the replay.
\<close>

definition ScopeGuard :: "completion \<Rightarrow> completion \<Rightarrow> completion option" where
  "ScopeGuard block_end action_end = (if action_end = Throws then None else Some block_end)"

text \<open>
  Lines 157-215. \<open>fs\<close> gives the contents of the file at a path (\<open>None\<close> when it cannot
  be opened), \<open>hs0\<close> and \<open>sur0\<close> are the handler's state and its \<open>super_user_rights_\<close>
  flag at the call. An empty path returns at once. Otherwise the \<open>try\<close> block runs the
  outer loop and is left through the guard declared at line 172; an exception that
  leaves the block reaches the handler at line 211, which logs the warning and returns.
\<close>

definition run_warmup_queries ::
  "'h MapDHandler \<Rightarrow> (string \<Rightarrow> string option) \<Rightarrow> 'h \<Rightarrow> bool \<Rightarrow> string \<Rightarrow> string
     \<Rightarrow> 'h warmup_result" where
  "run_warmup_queries h fs hs0 sur0 base_path query_file_path =
     (if query_file_path = [] then
        \<lparr>events = [], outcome = Returned, handler_state = hs0,
         handler_super_user_rights = sur0\<rparr>
      else
        let st0 = \<lparr>hstate = hs0, super_user_rights = sur0,
                   sessionId = getInvalidSessionId h,
                   user_keyword = [], user_name = [], db_name = []\<rparr>;
            qf = (case fs query_file_path of None \<Rightarrow> [] | Some contents \<Rightarrow> contents)
        in case warmup_loop h query_file_path qf st0 of
             (evs, c, st1) \<Rightarrow>
               (case releaseWarmupSession h st1 of
                  (gevs, gc, st2) \<Rightarrow>
                    (case ScopeGuard c gc of
                       None \<Rightarrow>
                         \<lparr>events = LogInfo query_file_path # FileOpen query_file_path # evs @ gevs,
                          outcome = Terminated,
                          handler_state = hstate st2,
                          handler_super_user_rights = super_user_rights st2\<rparr>
                     | Some Throws \<Rightarrow>
                         \<lparr>events = LogInfo query_file_path # FileOpen query_file_path # evs @ gevs
                                     @ [LogWarmupIncomplete],
                          outcome = Returned,
                          handler_state = hstate st2,
                          handler_super_user_rights = super_user_rights st2\<rparr>
                     | Some Returns \<Rightarrow>
                         \<lparr>events = LogInfo query_file_path # FileOpen query_file_path # evs @ gevs,
                          outcome = Returned,
                          handler_state = hstate st2,
                          handler_super_user_rights = super_user_rights st2\<rparr>)))"

lemma run_warmup_queries_unfold:
  "run_warmup_queries h fs hs0 sur0 bp query_file_path =
     (if query_file_path = [] then
        \<lparr>events = [], outcome = Returned, handler_state = hs0,
         handler_super_user_rights = sur0\<rparr>
      else
        let st0 = \<lparr>hstate = hs0, super_user_rights = sur0,
                   sessionId = getInvalidSessionId h,
                   user_keyword = [], user_name = [], db_name = []\<rparr>;
            qf = (case fs query_file_path of None \<Rightarrow> [] | Some contents \<Rightarrow> contents)
        in case warmup_loop h query_file_path qf st0 of
             (evs, c, st1) \<Rightarrow>
               (case releaseWarmupSession h st1 of
                  (gevs, gc, st2) \<Rightarrow>
                    \<lparr>events =
                       LogInfo query_file_path # FileOpen query_file_path # evs @ gevs
                         @ (if gc = Returns \<and> c = Throws then [LogWarmupIncomplete] else []),
                     outcome = (if gc = Throws then Terminated else Returned),
                     handler_state = hstate st2,
                     handler_super_user_rights = super_user_rights st2\<rparr>))"
proof -
  have c: "\<And>x. x \<noteq> Returns \<Longrightarrow> x = Throws" by (rule completion.exhaust) auto
  show ?thesis
    by (auto simp: run_warmup_queries_def ScopeGuard_def Let_def
             split: prod.splits completion.splits dest: c)
qed

subsection \<open>Handlers for the examples\<close>

text \<open>
  A handler whose three calls end as told. Its state counts the sessions handed out;
  the n-th successful \<open>connect\<close> leaves a session id of n letters, and a \<open>connect\<close>
  that throws leaves the reference argument as it was.
\<close>

definition scripted_handler :: "completion \<Rightarrow> completion \<Rightarrow> completion \<Rightarrow> nat MapDHandler" where
  "scripted_handler cc ce cd =
     \<lparr>getInvalidSessionId = ''INVALID_SESSION_ID'',
      connect = (\<lambda>n sur sid user passwd db.
                   if cc = Throws then (Throws, sid, n)
                   else (Returns, replicate (Suc n) CHR ''s'', Suc n)),
      sql_execute = (\<lambda>n sid q. (ce, n)),
      disconnect = (\<lambda>n sid. (cd, n))\<rparr>"

definition one_file :: "string \<Rightarrow> string \<Rightarrow> string \<Rightarrow> string option" where
  "one_file path contents p = (if p = path then Some contents else None)"

subsection \<open>Reading a trace\<close>

text \<open>
  Three readings of a trace, used to state what the cleanup guarantees. A session is
  opened by a \<open>connect\<close> that leaves an id other than the sentinel, and it stays open
  until a \<open>disconnect\<close> call for it has returned: a call that throws disconnects
  nothing.
  \<^item> \<open>session_discipline nosid held evs\<close>, where \<open>held\<close> is the session open before
    \<open>evs\<close>, holds when no \<open>connect\<close> of \<open>evs\<close> is made while a session is open, and every
    \<open>disconnect\<close> call of \<open>evs\<close> is for the session open at that point (or for the
    sentinel, when none is open). So no opened session is ever dropped for another
    one, and none is disconnected again after a call that returned.
  \<^item> \<open>held_session nosid held evs\<close> is the session open after \<open>evs\<close>.
  \<^item> \<open>count_list evs FileClose\<close> counts the calls of \<open>query_file.close()\<close>.
\<close>

fun is_exec :: "event \<Rightarrow> bool" where
  "is_exec (SqlExecute sid q c) = True"
| "is_exec e = False"

fun session_discipline :: "TSessionId \<Rightarrow> TSessionId option \<Rightarrow> event list \<Rightarrow> bool" where
  "session_discipline nosid held [] = True"
| "session_discipline nosid held (Connect sur u p d c sid # es) =
     (held = None \<and> session_discipline nosid (if sid = nosid then None else Some sid) es)"
| "session_discipline nosid held (Disconnect sid c # es) =
     ((held = Some sid \<or> (held = None \<and> sid = nosid)) \<and>
      session_discipline nosid (if c = Returns then None else held) es)"
| "session_discipline nosid held (e # es) = session_discipline nosid held es"

fun held_session :: "TSessionId \<Rightarrow> TSessionId option \<Rightarrow> event list \<Rightarrow> TSessionId option" where
  "held_session nosid cur [] = cur"
| "held_session nosid cur (Connect sur u p d c sid # es) =
     held_session nosid (if sid = nosid then None else Some sid) es"
| "held_session nosid cur (Disconnect sid c # es) =
     held_session nosid (if c = Returns \<and> cur = Some sid then None else cur) es"
| "held_session nosid cur (e # es) = held_session nosid cur es"

text \<open>The events that are calls into the handler, and the handlers none of whose calls
  throws.\<close>

fun is_handler_call :: "event \<Rightarrow> bool" where
  "is_handler_call (Connect sur u p d c sid) = True"
| "is_handler_call (SqlExecute sid q c) = True"
| "is_handler_call (Disconnect sid c) = True"
| "is_handler_call e = False"

definition never_raises :: "'h MapDHandler \<Rightarrow> bool" where
  "never_raises h =
     ((\<forall>hs sur sid u pw d. fst (connect h hs sur sid u pw d) = Returns) \<and>
      (\<forall>hs sid q. fst (sql_execute h hs sid q) = Returns) \<and>
      (\<forall>hs sid. fst (disconnect h hs sid) = Returns))"

text \<open>The invariant of the outer loop that the cleanup relies on, for a loop that was
  entered with the sentinel in \<open>sessionId\<close>: the loop never closes the file, it ends
  normally only with the sentinel in \<open>sessionId\<close> again, the session open after its
  events is the one in \<open>sessionId\<close>, and its events followed by those of the cleanup
  action keep the session discipline.\<close>

definition cleanup_ok :: "'h MapDHandler \<Rightarrow> event list \<Rightarrow> completion \<Rightarrow> 'h warmup_state \<Rightarrow> bool" where
  "cleanup_ok h evs c st' =
     (FileClose \<notin> set evs \<and>
      (c = Returns \<longrightarrow> sessionId st' = getInvalidSessionId h) \<and>
      held_session (getInvalidSessionId h) None evs
        = (if sessionId st' = getInvalidSessionId h then None else Some (sessionId st')) \<and>
      session_discipline (getInvalidSessionId h) None (evs @ fst (releaseWarmupSession h st')))"

subsection \<open>Scripts as blocks\<close>




















section \<open>Start-up: \<open>main\<close> of MapDServer.cpp\<close>

subsection \<open>Cluster members\<close>

text \<open>
  Modelled from the spec: \<open>LeafHostInfo\<close> and \<open>NodeRole\<close> (LeafHostInfo.h is not among the
  sources) are the spec's "LeafDescriptor { host: string, port: integer, role:
  enum{Aggregator, DbLeaf, StringLeaf} }"; the source names the last role
  \<open>NodeRole::String\<close>.
\<close>

datatype NodeRole = Aggregator | DbLeaf | String

record LeafHostInfo =
  getHost :: string
  getPort :: nat
  getRole :: NodeRole

text \<open>Lines 106-120: \<open>std::copy_if\<close> keeps the members of one role, in their order.\<close>

definition only_db_leaves :: "LeafHostInfo list \<Rightarrow> LeafHostInfo list" where
  "only_db_leaves all_leaves = filter (\<lambda>leaf. getRole leaf = DbLeaf) all_leaves"

definition only_string_leaves :: "LeafHostInfo list \<Rightarrow> LeafHostInfo list" where
  "only_string_leaves all_leaves = filter (\<lambda>leaf. getRole leaf = String) all_leaves"

subsection \<open>Strings, paths and numbers\<close>

text \<open>\<open>boost::algorithm::trim_if(s, boost::is_any_of("\"'"))\<close>: double and single quotes
  are removed from both ends.\<close>

definition trim_quotes :: "string \<Rightarrow> string" where
  "trim_quotes s =
     rev (dropWhile (\<lambda>c. c = CHR 0x22 \<or> c = CHR 0x27)
       (rev (dropWhile (\<lambda>c. c = CHR 0x22 \<or> c = CHR 0x27) s)))"

text \<open>\<open>boost::filesystem::path::operator/\<close>: a separator is put between the two parts
  unless one is empty, the first ends with one or the second starts with one.\<close>

definition path_append :: "string \<Rightarrow> string \<Rightarrow> string" where
  "path_append p q =
     (if q = [] then p
      else if p \<noteq> [] \<and> last p \<noteq> CHR ''/'' \<and> hd q \<noteq> CHR ''/'' then p @ CHR ''/'' # q
      else p @ q)"

text \<open>\<open>std::to_string\<close> of an \<open>int\<close>: decimal digits, most significant first, after a
  minus sign for a negative value; and the number a string of digits denotes.\<close>

definition digit_char :: "nat \<Rightarrow> char" where
  "digit_char d = ''0123456789'' ! d"

fun decimal :: "nat \<Rightarrow> string" where
  "decimal n = (if n < 10 then [digit_char n] else decimal (n div 10) @ [digit_char (n mod 10)])"

declare decimal.simps [simp del]

definition to_string :: "int \<Rightarrow> string" where
  "to_string i = (if i < 0 then CHR ''-'' # decimal (nat (- i)) else decimal (nat i))"


definition digit_value :: "char \<Rightarrow> nat" where
  "digit_value c = length (takeWhile (\<lambda>d. d \<noteq> c) ''0123456789'')"

definition decimal_value :: "string \<Rightarrow> nat" where
  "decimal_value s = foldl (\<lambda>acc c. 10 * acc + digit_value c) 0 s"

subsection \<open>What \<open>main\<close> does, and what it is given\<close>

text \<open>
  The calls of \<open>main\<close> that are visible outside it, in program order. \<open>Print\<close> stands for
  a message on \<open>std::cout\<close> or \<open>std::cerr\<close> and for the \<open>LOG(ERROR)\<close> and \<open>LOG(FATAL)\<close>
  messages; \<open>StartThread\<close> is the construction of a \<open>std::thread\<close> that runs
  \<open>start_server\<close> on an endpoint, \<open>JoinThread\<close> the call of \<open>join\<close> that blocks until
  that thread has ended; \<open>Warmup\<close> carries an event of the replay. What the two endpoint
  threads do while \<open>main\<close> goes on is not part of this trace.
\<close>

definition mode_0644 :: nat where
  "mode_0644 = 6 * 64 + 4 * 8 + 4"

datatype open_flag = O_RDWR | O_CREAT

datatype lockf_cmd = F_ULOCK | F_LOCK | F_TLOCK | F_TEST

datatype endpoint = BufServer | HttpServer

datatype message =
    UsageError | Usage | UsageAdvanced | Version
  | QueryFileMissing string | ConvertDirMissing string | DataDirMissing string
  | CatalogsMissing string | DataSubdirMissing string | SystemDbMissing string
  | PidOpenFailed string | AnotherServer string | PidTruncateFailed string
  | PidWriteFailed string
  | HaNoServerId | HaNoBrokers | HaNoSharedData | NoHaModule

datatype main_event =
    Print message
  | CheckFailed                            \<comment> \<open>line 366, \<open>CHECK_NE\<close> fails\<close>
  | ParseClusterConfig string              \<comment> \<open>line 368, with the cluster file\<close>
  | SysOpen string "open_flag list" nat    \<comment> \<open>line 449: path, flags, mode\<close>
  | SysLockf int lockf_cmd int             \<comment> \<open>line 454: descriptor, command, length\<close>
  | SysFtruncate int int                   \<comment> \<open>line 460: descriptor, length\<close>
  | SysWrite int string                    \<comment> \<open>line 465: descriptor, text\<close>
  | SysClose int                           \<comment> \<open>lines 457, 462, 467\<close>
  | CreateLogDir string                    \<comment> \<open>line 473\<close>
  | InitGoogleLogging                      \<comment> \<open>line 478\<close>
  | RegisterSignalHandler                  \<comment> \<open>line 516\<close>
  | NewHandler "LeafHostInfo list" "LeafHostInfo list"
      \<comment> \<open>line 518, with \<open>db_leaves\<close> and \<open>string_leaves\<close>\<close>
  | StartThread endpoint                   \<comment> \<open>lines 558-559\<close>
  | Warmup event                           \<comment> \<open>line 562\<close>
  | JoinThread endpoint                    \<comment> \<open>lines 564-565\<close>

text \<open>How the process ends: \<open>main\<close> returns a code, or the process is aborted (a failed
  \<open>CHECK\<close>, \<open>LOG(FATAL)\<close>, \<open>std::terminate\<close>).\<close>

datatype exit = Return int | Abort

text \<open>
  What option processing (lines 249-363, \<open>boost::program_options\<close>) leaves behind:
  whether it threw a \<open>po::error\<close>, which options were given (\<open>vm.count\<close>), and the values
  of the variables the rest of \<open>main\<close> reads. Variables that are only handed to the
  handler's constructor (device, memory sizes, ports and the like) are left out.
  How \<open>boost::program_options\<close> fills \<open>vm\<close> is outside this file, so the presence of an
  option is taken as given; \<open>cluster\<close> and \<open>string-servers\<close>, which lines 365-372 ask for,
  are not among the options this file declares, and the specification takes them as
  the inputs \<open>wantCluster\<close> and \<open>wantStringServers\<close>.
\<close>

record options =
  usage_error :: bool
  opt_cluster :: bool
  opt_string_servers :: bool
  opt_help :: bool
  opt_help_advanced :: bool
  opt_version :: bool
  base_path :: string
  cluster_file :: string
  db_query_file :: string
  db_convert_dir :: string
  ha_group_id :: string
  ha_unique_server_id :: string
  ha_brokers :: string
  ha_shared_data :: string


text \<open>
  The surroundings: the cluster-file parser \<open>LeafHostInfo::parseClusterConfig\<close>, the
  global \<open>g_cluster\<close> before \<open>main\<close>, the macro \<open>MAPD_SYSTEM_DB\<close>, the file system
  (\<open>boost::filesystem::exists\<close> and the contents of files), and the results of
  \<open>getpid\<close>, \<open>open\<close>, \<open>lockf\<close>, \<open>ftruncate\<close> and \<open>write\<close>.
\<close>

record environment =
  parseClusterConfig :: "string \<Rightarrow> LeafHostInfo list"
  g_cluster0 :: bool
  MAPD_SYSTEM_DB :: string
  path_exists :: "string \<Rightarrow> bool"
  read_file :: "string \<Rightarrow> string option"
  getpid :: int
  sys_open :: "string \<Rightarrow> int"
  sys_lockf :: "int \<Rightarrow> int"
  sys_ftruncate :: "int \<Rightarrow> int"
  sys_write :: "int \<Rightarrow> string \<Rightarrow> int"

record cluster_topology =
  db_leaves :: "LeafHostInfo list"
  string_leaves :: "LeafHostInfo list"
  g_cluster :: bool

text \<open>A stretch of \<open>main\<close>: its events, and either the end of the process or the value
  it hands to what follows.\<close>

type_synonym 'a stage = "main_event list \<times> (exit + 'a)"

definition and_then :: "'a stage \<Rightarrow> ('a \<Rightarrow> 'b stage) \<Rightarrow> 'b stage" where
  "and_then s f =
     (case s of
        (evs, Inl e) \<Rightarrow> (evs, Inl e)
      | (evs, Inr a) \<Rightarrow> (case f a of (evs', r) \<Rightarrow> (evs @ evs', r)))"

subsection \<open>The function an endpoint thread runs\<close>

text \<open>
  Lines 139-145, \<open>start_server\<close>, given how \<open>server.serve()\<close> ends: it returns, it throws
  an exception derived from \<open>std::exception\<close> (with its \<open>what()\<close>), or it throws something
  else. The result is what is logged with \<open>LOG(ERROR)\<close> and whether the function
  returns; an exception it does not catch leaves the thread's function.
\<close>

datatype serve_end = ServeReturns | ServeThrowsStd string | ServeThrowsOther

definition start_server :: "serve_end \<Rightarrow> string list \<times> completion" where
  "start_server serve =
     (case serve of
        ServeReturns \<Rightarrow> ([], Returns)
      | ServeThrowsStd what \<Rightarrow> ([''Exception: '' @ what], Returns)
      | ServeThrowsOther \<Rightarrow> ([], Throws))"

subsection \<open>The stages of \<open>main\<close>\<close>

text \<open>Lines 365-376, inside the \<open>try\<close> block of option processing.\<close>

definition cluster_stage :: "options \<Rightarrow> environment \<Rightarrow> cluster_topology stage" where
  "cluster_stage opts env =
     (if opt_cluster opts \<or> opt_string_servers opts then
        if opt_cluster opts = opt_string_servers opts then ([CheckFailed], Inl Abort)
        else
          let cf = trim_quotes (cluster_file opts);
              all_nodes = parseClusterConfig env cf
          in ([ParseClusterConfig cf],
              Inr \<lparr>db_leaves = (if opt_cluster opts then only_db_leaves all_nodes else []),
                   string_leaves = only_string_leaves all_nodes,
                   g_cluster = True\<rparr>)
      else ([], Inr \<lparr>db_leaves = [], string_leaves = [], g_cluster = g_cluster0 env\<rparr>))"

text \<open>Lines 354-414: a \<open>po::error\<close> is a usage error; otherwise the cluster members are
  resolved, and then \<open>--help\<close>, \<open>--help-advanced\<close> and \<open>--version\<close> end the process.\<close>

definition options_stage :: "options \<Rightarrow> environment \<Rightarrow> cluster_topology stage" where
  "options_stage opts env =
     (if usage_error opts then ([Print UsageError], Inl (Return 1))
      else
        and_then (cluster_stage opts env) (\<lambda>topology.
          if opt_help opts then ([Print Usage], Inl (Return 0))
          else if opt_help_advanced opts then ([Print UsageAdvanced], Inl (Return 0))
          else if opt_version opts then ([Print Version], Inl (Return 0))
          else ([], Inr topology)))"

text \<open>Lines 416-445: the files and directories that must exist.\<close>

definition precondition_stage :: "options \<Rightarrow> environment \<Rightarrow> unit stage" where
  "precondition_stage opts env =
     (let qf = trim_quotes (db_query_file opts);
          cd = trim_quotes (db_convert_dir opts);
          bp = trim_quotes (base_path opts)
      in if qf \<noteq> [] \<and> \<not> path_exists env qf then
           ([Print (QueryFileMissing qf)], Inl (Return 1))
         else if cd \<noteq> [] \<and> \<not> path_exists env cd then
           ([Print (ConvertDirMissing cd)], Inl (Return 1))
         else if \<not> path_exists env bp then
           ([Print (DataDirMissing bp)], Inl (Return 1))
         else if \<not> path_exists env (path_append (path_append bp ''mapd_catalogs'') ''mapd'') then
           ([Print (CatalogsMissing (path_append (path_append bp ''mapd_catalogs'') ''mapd''))],
            Inl (Return 1))
         else if \<not> path_exists env (path_append bp ''mapd_data'') then
           ([Print (DataSubdirMissing bp)], Inl (Return 1))
         else if \<not> path_exists env
                    (path_append (path_append bp ''mapd_catalogs'') (MAPD_SYSTEM_DB env)) then
           ([Print (SystemDbMissing (MAPD_SYSTEM_DB env))], Inl (Return 1))
         else ([], Inr ()))"

text \<open>Lines 447-469: the lock file of the data directory.\<close>

definition lock_stage :: "options \<Rightarrow> environment \<Rightarrow> unit stage" where
  "lock_stage opts env =
     (let bp = trim_quotes (base_path opts);
          lock_file = path_append bp ''mapd_server_pid.lck'';
          pid = to_string (getpid env);
          pid_fd = sys_open env lock_file
      in if pid_fd = - 1 then
           ([SysOpen lock_file [O_RDWR, O_CREAT] mode_0644, Print (PidOpenFailed lock_file)], Inl (Return 1))
         else if sys_lockf env pid_fd = - 1 then
           ([SysOpen lock_file [O_RDWR, O_CREAT] mode_0644, SysLockf pid_fd F_TLOCK 0, Print (AnotherServer bp), SysClose pid_fd],
            Inl (Return 1))
         else if sys_ftruncate env pid_fd = - 1 then
           ([SysOpen lock_file [O_RDWR, O_CREAT] mode_0644, SysLockf pid_fd F_TLOCK 0, SysFtruncate pid_fd 0,
             Print (PidTruncateFailed lock_file), SysClose pid_fd],
            Inl (Return 1))
         else if sys_write env pid_fd pid = - 1 then
           ([SysOpen lock_file [O_RDWR, O_CREAT] mode_0644, SysLockf pid_fd F_TLOCK 0, SysFtruncate pid_fd 0, SysWrite pid_fd pid,
             Print (PidWriteFailed lock_file), SysClose pid_fd],
            Inl (Return 1))
         else
           ([SysOpen lock_file [O_RDWR, O_CREAT] mode_0644, SysLockf pid_fd F_TLOCK 0, SysFtruncate pid_fd 0, SysWrite pid_fd pid],
            Inr ()))"

text \<open>Lines 472-516: the log directory and the logging library, the checks of the
  high-availability parameters, and the signal handler.\<close>

definition logging_stage :: "options \<Rightarrow> environment \<Rightarrow> unit stage" where
  "logging_stage opts env =
     (let bp = trim_quotes (base_path opts);
          started = [CreateLogDir (path_append bp ''mapd_log''), InitGoogleLogging]
      in if ha_group_id opts \<noteq> [] \<and> ha_unique_server_id opts = [] then
           (started @ [Print HaNoServerId], Inl (Return 5))
         else if ha_group_id opts \<noteq> [] \<and> ha_brokers opts = [] then
           (started @ [Print HaNoBrokers], Inl (Return 6))
         else if ha_group_id opts \<noteq> [] \<and> ha_shared_data opts = [] then
           (started @ [Print HaNoSharedData], Inl (Return 7))
         else (started @ [RegisterSignalHandler], Inr ()))"

text \<open>Lines 518-569: the handler, the two endpoint threads, the warm-up replay on the
  main thread, and the two joins. \<open>hs0\<close> and \<open>sur0\<close> are the state and the
  \<open>super_user_rights_\<close> flag of the handler as its constructor leaves them. When the
  replay ends in \<open>std::terminate\<close> the process is gone before the joins.\<close>

definition serve_stage ::
  "options \<Rightarrow> environment \<Rightarrow> 'h MapDHandler \<Rightarrow> 'h \<Rightarrow> bool \<Rightarrow> cluster_topology
     \<Rightarrow> main_event list \<times> exit" where
  "serve_stage opts env h hs0 sur0 topology =
     (if ha_group_id opts = [] then
        let r = run_warmup_queries h (read_file env) hs0 sur0
                  (trim_quotes (base_path opts)) (trim_quotes (db_query_file opts))
        in (NewHandler (db_leaves topology) (string_leaves topology)
              # StartThread BufServer # StartThread HttpServer # map Warmup (events r)
              @ (if outcome r = Terminated then []
                 else [JoinThread BufServer, JoinThread HttpServer]),
            if outcome r = Terminated then Abort else Return 0)
      else
        ([NewHandler (db_leaves topology) (string_leaves topology), Print NoHaModule], Abort))"

definition main ::
  "options \<Rightarrow> environment \<Rightarrow> 'h MapDHandler \<Rightarrow> 'h \<Rightarrow> bool \<Rightarrow> main_event list \<times> exit" where
  "main opts env h hs0 sur0 =
     (case and_then (options_stage opts env) (\<lambda>topology.
             and_then (precondition_stage opts env) (\<lambda>_.
             and_then (lock_stage opts env) (\<lambda>_.
             and_then (logging_stage opts env) (\<lambda>_. ([], Inr topology))))) of
        (evs, Inl e) \<Rightarrow> (evs, e)
      | (evs, Inr topology) \<Rightarrow>
          (case serve_stage opts env h hs0 sur0 topology of
             (evs', e) \<Rightarrow> (evs @ evs', e)))"

text \<open>The stage an event of \<open>main\<close> belongs to: 0 option processing with the
  resolution of the cluster members, 1 the file-system preconditions, 2 the instance
  lock, 3 logging, signal handler and handler construction, 4 the launch of the two
  endpoints, 5 the warm-up replay, 6 the joins.\<close>

fun startup_phase :: "main_event \<Rightarrow> nat" where
  "startup_phase (Print UsageError) = 0"
| "startup_phase (Print Usage) = 0"
| "startup_phase (Print UsageAdvanced) = 0"
| "startup_phase (Print Version) = 0"
| "startup_phase CheckFailed = 0"
| "startup_phase (ParseClusterConfig f) = 0"
| "startup_phase (Print (QueryFileMissing p)) = 1"
| "startup_phase (Print (ConvertDirMissing p)) = 1"
| "startup_phase (Print (DataDirMissing p)) = 1"
| "startup_phase (Print (CatalogsMissing p)) = 1"
| "startup_phase (Print (DataSubdirMissing p)) = 1"
| "startup_phase (Print (SystemDbMissing p)) = 1"
| "startup_phase (SysOpen p fl mode) = 2"
| "startup_phase (SysLockf fd cmd len) = 2"
| "startup_phase (SysFtruncate fd len) = 2"
| "startup_phase (SysWrite fd text) = 2"
| "startup_phase (SysClose fd) = 2"
| "startup_phase (Print (PidOpenFailed p)) = 2"
| "startup_phase (Print (AnotherServer p)) = 2"
| "startup_phase (Print (PidTruncateFailed p)) = 2"
| "startup_phase (Print (PidWriteFailed p)) = 2"
| "startup_phase (CreateLogDir p) = 3"
| "startup_phase InitGoogleLogging = 3"
| "startup_phase RegisterSignalHandler = 3"
| "startup_phase (Print HaNoServerId) = 3"
| "startup_phase (Print HaNoBrokers) = 3"
| "startup_phase (Print HaNoSharedData) = 3"
| "startup_phase (NewHandler dbl strl) = 3"
| "startup_phase (Print NoHaModule) = 3"
| "startup_phase (StartThread ep) = 4"
| "startup_phase (Warmup e) = 5"
| "startup_phase (JoinThread ep) = 6"

subsection \<open>A start-up for the examples\<close>

definition example_options :: options where
  "example_options =
     \<lparr>usage_error = False, opt_cluster = True, opt_string_servers = False,
      opt_help = False, opt_help_advanced = False, opt_version = False,
      base_path = ''data'', cluster_file = ''cluster.conf'',
      db_query_file = ''warmup.sql'', db_convert_dir = [],
      ha_group_id = [], ha_unique_server_id = [], ha_brokers = [], ha_shared_data = []\<rparr>"


definition example_environment :: "int \<Rightarrow> environment" where
  "example_environment lockf_result =
     \<lparr>parseClusterConfig = (\<lambda>f.
        [\<lparr>getHost = ''leaf1'', getPort = 9091, getRole = DbLeaf\<rparr>,
         \<lparr>getHost = ''dict1'', getPort = 10301, getRole = String\<rparr>,
         \<lparr>getHost = ''agg'', getPort = 9091, getRole = Aggregator\<rparr>]),
      g_cluster0 = False,
      MAPD_SYSTEM_DB = ''mapd'',
      path_exists = (\<lambda>p. True),
      read_file = one_file ''warmup.sql'' ''USER a db\<newline>SELECT 1;\<newline>}\<newline>'',
      getpid = 4711,
      sys_open = (\<lambda>p. 3),
      sys_lockf = (\<lambda>fd. lockf_result),
      sys_ftruncate = (\<lambda>fd. 0),
      sys_write = (\<lambda>fd text. int (length text))\<rparr>"

section \<open>Properties of the warm-up replay\<close>

subsection \<open>The loops, case by case\<close>

lemma query_loop_events:
  "query_loop h qf st = (evs, c, rest, st') \<Longrightarrow> list_all is_exec evs \<and> sessionId st' = sessionId st"
proof (induction h qf st arbitrary: evs c rest st' rule: query_loop.induct)
  case (1 h qf st)
  show ?case
  proof (cases "getline qf")
    case None
    with "1.prems" show ?thesis by (simp add: query_loop.simps [of h qf])
  next
    case (Some p)
    obtain single_query r where p: "p = (single_query, r)" by (cases p)
    note g = Some [unfolded p]
    show ?thesis
    proof (cases "single_query = []")
      case True
      have "query_loop h r st = (evs, c, rest, st')"
        using "1.prems" g True by (simp add: query_loop.simps [of h qf])
      from "1.IH"(1) [OF g refl True this] show ?thesis .
    next
      case ne: False
      show ?thesis
      proof (cases "single_query = ''}''")
        case True
        with "1.prems" g ne show ?thesis by (simp add: query_loop.simps [of h qf])
      next
        case nb: False
        obtain cq hs where ex: "sql_execute h (hstate st) (sessionId st) single_query = (cq, hs)"
          by (cases "sql_execute h (hstate st) (sessionId st) single_query")
        show ?thesis
        proof (cases cq)
          case Throws
          with "1.prems" g ne nb ex show ?thesis
            by (auto simp add: query_loop.simps [of h qf])
        next
          case Returns
          obtain evs2 c2 rest2 st2 where
            rec: "query_loop h r (st\<lparr>hstate := hs\<rparr>) = (evs2, c2, rest2, st2)"
            by (cases "query_loop h r (st\<lparr>hstate := hs\<rparr>)") auto
          have ih: "list_all is_exec evs2 \<and> sessionId st2 = sessionId (st\<lparr>hstate := hs\<rparr>)"
            using "1.IH"(2) [OF g refl ne nb ex [unfolded Returns, symmetric] refl rec] .
          have "evs = SqlExecute (sessionId st) single_query Returns # evs2" "st' = st2"
            using "1.prems" g ne nb ex Returns rec
            by (simp_all add: query_loop.simps [of h qf])
          with ih show ?thesis by simp
        qed
      qed
    qed
  qed
qed

lemma session_discipline_exec:
  "list_all is_exec xs \<Longrightarrow> session_discipline nosid held (xs @ ys) = session_discipline nosid held ys"
proof (induction xs)
  case Nil
  show ?case by simp
next
  case (Cons x xs)
  then show ?case by (cases x) simp_all
qed

lemma held_session_exec:
  "list_all is_exec xs \<Longrightarrow> held_session nosid cur (xs @ ys) = held_session nosid cur ys"
proof (induction xs)
  case Nil
  show ?case by simp
next
  case (Cons x xs)
  then show ?case by (cases x) simp_all
qed

lemma held_session_exec_only:
  "list_all is_exec xs \<Longrightarrow> held_session nosid cur xs = cur"
  using held_session_exec [of xs nosid cur "[]"] by simp

lemma exec_not_close: "list_all is_exec xs \<Longrightarrow> FileClose \<notin> set xs"
  by (induction xs) auto


lemma read_header_frame [simp]:
  "hstate (read_header l st) = hstate st"
  "sessionId (read_header l st) = sessionId st"
  "super_user_rights (read_header l st) = super_user_rights st"
  by (simp_all add: read_header_def split: option.splits prod.splits)

lemma warmup_loop_eof:
  "getline qf = None \<Longrightarrow> warmup_loop h p qf st = ([], Returns, st)"
  by (simp add: warmup_loop.simps [of h p qf])

lemma warmup_loop_blank:
  "getline qf = Some ([], rest) \<Longrightarrow> warmup_loop h p qf st = warmup_loop h p rest st"
  by (simp add: warmup_loop.simps [of h p qf])

lemma warmup_loop_warn:
  "getline qf = Some (l, rest) \<Longrightarrow> l \<noteq> [] \<Longrightarrow>
   \<not> is_user_keyword (user_keyword (read_header l st)) \<Longrightarrow>
   warmup_loop h p qf st =
     (case warmup_loop h p rest (read_header l st) of
        (evs, c, st2) \<Rightarrow> (LogSyntaxWarning p l # evs, c, st2))"
  by (simp add: warmup_loop.simps [of h p qf])

lemma warmup_loop_connect_throws:
  "getline qf = Some (l, rest) \<Longrightarrow> l \<noteq> [] \<Longrightarrow> st1 = read_header l st \<Longrightarrow>
   is_user_keyword (user_keyword st1) \<Longrightarrow>
   connect h (hstate st1) True (sessionId st1) (user_name st1) [] (db_name st1) = (Throws, sid, hs) \<Longrightarrow>
   warmup_loop h p qf st =
     ([Connect True (user_name st1) [] (db_name st1) Throws sid], Throws,
      st1\<lparr>hstate := hs, super_user_rights := True, sessionId := sid\<rparr>)"
  by (simp add: warmup_loop.simps [of h p qf] Let_def)

lemma warmup_loop_statement_throws:
  "getline qf = Some (l, rest) \<Longrightarrow> l \<noteq> [] \<Longrightarrow> st1 = read_header l st \<Longrightarrow>
   is_user_keyword (user_keyword st1) \<Longrightarrow>
   connect h (hstate st1) True (sessionId st1) (user_name st1) [] (db_name st1) = (Returns, sid, hs) \<Longrightarrow>
   query_loop h rest (st1\<lparr>hstate := hs, super_user_rights := False, sessionId := sid\<rparr>)
     = (evs, Throws, rest', st2) \<Longrightarrow>
   warmup_loop h p qf st =
     (Connect True (user_name st1) [] (db_name st1) Returns sid # evs, Throws, st2)"
  by (simp add: warmup_loop.simps [of h p qf] Let_def)

lemma warmup_loop_disconnect_throws:
  "getline qf = Some (l, rest) \<Longrightarrow> l \<noteq> [] \<Longrightarrow> st1 = read_header l st \<Longrightarrow>
   is_user_keyword (user_keyword st1) \<Longrightarrow>
   connect h (hstate st1) True (sessionId st1) (user_name st1) [] (db_name st1) = (Returns, sid, hs) \<Longrightarrow>
   query_loop h rest (st1\<lparr>hstate := hs, super_user_rights := False, sessionId := sid\<rparr>)
     = (evs, Returns, rest', st2) \<Longrightarrow>
   disconnect h (hstate st2) (sessionId st2) = (Throws, hs') \<Longrightarrow>
   warmup_loop h p qf st =
     (Connect True (user_name st1) [] (db_name st1) Returns sid # evs
        @ [Disconnect (sessionId st2) Throws],
      Throws, st2\<lparr>hstate := hs'\<rparr>)"
  by (simp add: warmup_loop.simps [of h p qf] Let_def)

lemma warmup_loop_block:
  "getline qf = Some (l, rest) \<Longrightarrow> l \<noteq> [] \<Longrightarrow> st1 = read_header l st \<Longrightarrow>
   is_user_keyword (user_keyword st1) \<Longrightarrow>
   connect h (hstate st1) True (sessionId st1) (user_name st1) [] (db_name st1) = (Returns, sid, hs) \<Longrightarrow>
   query_loop h rest (st1\<lparr>hstate := hs, super_user_rights := False, sessionId := sid\<rparr>)
     = (evs, Returns, rest', st2) \<Longrightarrow>
   disconnect h (hstate st2) (sessionId st2) = (Returns, hs') \<Longrightarrow>
   warmup_loop h p qf st =
     (case warmup_loop h p rest' (st2\<lparr>hstate := hs', sessionId := getInvalidSessionId h\<rparr>) of
        (evs', c, st3) \<Rightarrow>
          (Connect True (user_name st1) [] (db_name st1) Returns sid # evs
             @ Disconnect (sessionId st2) Returns # evs',
           c, st3))"
  by (simp add: warmup_loop.simps [of h p qf] Let_def)



lemma release_events:
  "fst (releaseWarmupSession h st) =
     FileClose # (if sessionId st \<noteq> getInvalidSessionId h
                  then [Disconnect (sessionId st) (fst (disconnect h (hstate st) (sessionId st)))]
                  else [])"
  by (simp add: releaseWarmupSession_def split: prod.splits)

lemma warmup_loop_cleanup:
  "warmup_loop h p qf st = (evs, c, st') \<Longrightarrow> sessionId st = getInvalidSessionId h \<Longrightarrow>
   cleanup_ok h evs c st'"
proof (induction h p qf st arbitrary: evs c st' rule: warmup_loop.induct)
  case (1 h p qf st)
  note res = "1.prems"(1) and inv0 = "1.prems"(2)
  show ?case
  proof (cases "getline qf")
    case None
    with res inv0 show ?thesis
      by (simp add: warmup_loop_eof cleanup_ok_def release_events)
  next
    case (Some x2)
    obtain l rest where x2: "x2 = (l, rest)" by (cases x2)
    note g = Some [unfolded x2]
    show ?thesis
    proof (cases "l = []")
      case True
      have "warmup_loop h p rest st = (evs, c, st')"
        using res g True by (simp add: warmup_loop_blank)
      from "1.IH"(1) [OF Some x2 [symmetric] True this inv0] show ?thesis .
    next
      case ne: False
      define st1 where "st1 = read_header l st"
      have inv1: "sessionId st1 = getInvalidSessionId h"
        using inv0 by (simp add: st1_def)
      show ?thesis
      proof (cases "is_user_keyword (user_keyword st1)")
        case False
        obtain evs2 c2 st2 where rec: "warmup_loop h p rest st1 = (evs2, c2, st2)"
          by (cases "warmup_loop h p rest st1") auto
        have ih: "cleanup_ok h evs2 c2 st2"
          using "1.IH"(3) [OF Some x2 [symmetric] ne st1_def False rec inv1] .
        have "evs = LogSyntaxWarning p l # evs2" "c = c2" "st' = st2"
          using res warmup_loop_warn [OF g ne False [unfolded st1_def], of h p] rec
          by (simp_all add: st1_def)
        with ih show ?thesis by (simp add: cleanup_ok_def)
      next
        case kw: True
        obtain cc sid hs where
          con: "connect h (hstate st1) True (sessionId st1) (user_name st1) [] (db_name st1) = (cc, sid, hs)"
          by (cases "connect h (hstate st1) True (sessionId st1) (user_name st1) [] (db_name st1)") auto
        show ?thesis
        proof (cases cc)
          case Throws
          have "evs = [Connect True (user_name st1) [] (db_name st1) Throws sid]" "c = Throws"
               "st' = st1\<lparr>hstate := hs, super_user_rights := True, sessionId := sid\<rparr>"
            using res warmup_loop_connect_throws [OF g ne st1_def kw con [unfolded Throws], of p]
            by simp_all
          then show ?thesis by (simp add: cleanup_ok_def release_events)
        next
          case Returns
          note con' = con [unfolded Returns]
          define sta where "sta = st1\<lparr>hstate := hs, super_user_rights := False, sessionId := sid\<rparr>"
          obtain qevs qc rest' st2 where ql: "query_loop h rest sta = (qevs, qc, rest', st2)"
            by (cases "query_loop h rest sta") auto
          have qe: "list_all is_exec qevs" and qs: "sessionId st2 = sid"
            using query_loop_events [OF ql] by (simp_all add: sta_def)
          show ?thesis
          proof (cases qc)
            case Throws
            have "evs = Connect True (user_name st1) [] (db_name st1) Returns sid # qevs"
                 "c = Throws" "st' = st2"
              using res warmup_loop_statement_throws
                      [OF g ne st1_def kw con' ql [unfolded sta_def Throws], of p]
              by simp_all
            with qe qs show ?thesis
              by (simp add: cleanup_ok_def release_events session_discipline_exec exec_not_close held_session_exec held_session_exec_only)
          next
            case qr: Returns
            obtain dc hs' where dis: "disconnect h (hstate st2) (sessionId st2) = (dc, hs')"
              by (cases "disconnect h (hstate st2) (sessionId st2)")
            show ?thesis
            proof (cases dc)
              case Throws
              have "evs = Connect True (user_name st1) [] (db_name st1) Returns sid # qevs
                            @ [Disconnect (sessionId st2) Throws]"
                   "c = Throws" "st' = st2\<lparr>hstate := hs'\<rparr>"
                using res warmup_loop_disconnect_throws
                        [OF g ne st1_def kw con' ql [unfolded sta_def qr] dis [unfolded Throws], of p]
                by simp_all
              with qe qs show ?thesis
                by (simp add: cleanup_ok_def release_events session_discipline_exec exec_not_close held_session_exec held_session_exec_only)
            next
              case dr: Returns
              define stb where "stb = st2\<lparr>hstate := hs', sessionId := getInvalidSessionId h\<rparr>"
              obtain evs3 c3 st3 where rec: "warmup_loop h p rest' stb = (evs3, c3, st3)"
                by (cases "warmup_loop h p rest' stb") auto
              have ih: "cleanup_ok h evs3 c3 st3"
                using "1.IH"(2) [OF Some x2 [symmetric] ne st1_def kw con [symmetric] Returns refl
                        ql [unfolded sta_def, symmetric] refl qr refl dis [symmetric] dr
                        rec [unfolded stb_def]]
                by (simp)
              have "evs = Connect True (user_name st1) [] (db_name st1) Returns sid # qevs
                            @ Disconnect (sessionId st2) Returns # evs3"
                   "c = c3" "st' = st3"
                using res warmup_loop_block
                        [OF g ne st1_def kw con' ql [unfolded sta_def qr] dis [unfolded dr], of p]
                      rec [unfolded stb_def]
                by simp_all
              with qe qs ih show ?thesis
                by (simp add: cleanup_ok_def session_discipline_exec exec_not_close held_session_exec held_session_exec_only)
            qed
          qed
        qed
      qed
    qed
  qed
qed


lemma warmup_loop_returns_invalid:
  "warmup_loop h p qf st = (evs, Returns, st') \<Longrightarrow> sessionId st = getInvalidSessionId h \<Longrightarrow>
   sessionId st' = getInvalidSessionId h"
  using warmup_loop_cleanup [of h p qf st evs Returns st'] by (simp add: cleanup_ok_def)

subsection \<open>Cleanup on every exit path\<close>




subsection \<open>Lines and words\<close>

lemma getline_line:
  "CHR 0x0A \<notin> set l \<Longrightarrow> getline (l @ CHR 0x0A # later) = Some (l, later)"
proof -
  assume a: "CHR 0x0A \<notin> set l"
  then have p: "\<And>x. x \<in> set l \<Longrightarrow> x \<noteq> CHR 0x0A" by auto
  have "takeWhile (\<lambda>c. c \<noteq> CHR 0x0A) (l @ CHR 0x0A # later) = l"
    using takeWhile_append2 [of l "\<lambda>c. c \<noteq> CHR 0x0A" "CHR 0x0A # later"] p by simp
  moreover have "dropWhile (\<lambda>c. c \<noteq> CHR 0x0A) (l @ CHR 0x0A # later) = CHR 0x0A # later"
    using dropWhile_append2 [of l "\<lambda>c. c \<noteq> CHR 0x0A" "CHR 0x0A # later"] p by simp
  ultimately show ?thesis by (simp add: getline_def)
qed

lemma extract_word_nonempty:
  "extract_word s = Some (w, r) \<Longrightarrow> w \<noteq> [] \<and> s \<noteq> [] \<and> (r = [] \<or> isspace (hd r))"
proof -
  assume a: "extract_word s = Some (w, r)"
  define s' where "s' = dropWhile isspace s"
  from a have ne: "s' \<noteq> []" and w: "w = takeWhile (\<lambda>c. \<not> isspace c) s'"
    and r: "r = dropWhile (\<lambda>c. \<not> isspace c) s'"
    by (auto simp: extract_word_def Let_def s'_def split: if_splits)
  have "\<not> isspace (hd s')" using ne hd_dropWhile [of isspace s] by (simp add: s'_def)
  with ne have "w \<noteq> []" unfolding w by (cases s') auto
  moreover have "s \<noteq> []" using ne by (auto simp: s'_def)
  moreover have "r = [] \<or> isspace (hd r)"
    unfolding r using hd_dropWhile [of "\<lambda>c. \<not> isspace c" s'] by auto
  ultimately show ?thesis by simp
qed

lemma extract_word_append:
  assumes "extract_word s = Some (w, r)" and "r \<noteq> [] \<or> e = [] \<or> isspace (hd e)"
  shows "extract_word (s @ e) = Some (w, r @ e)"
proof -
  define s' where "s' = dropWhile isspace s"
  from assms(1) have ne: "s' \<noteq> []" and w: "w = takeWhile (\<lambda>c. \<not> isspace c) s'"
    and r: "r = dropWhile (\<lambda>c. \<not> isspace c) s'"
    by (auto simp: extract_word_def Let_def s'_def split: if_splits)
  have d1: "dropWhile isspace (s @ e) = s' @ e"
  proof -
    from ne obtain x where "x \<in> set s" "\<not> isspace x"
      unfolding s'_def by (metis dropWhile_eq_Nil_conv)
    then show ?thesis unfolding s'_def by (rule dropWhile_append1)
  qed
  show ?thesis
  proof (cases "r = []")
    case False
    then obtain x where x: "x \<in> set s'" "\<not> \<not> isspace x"
      unfolding r by (metis dropWhile_eq_Nil_conv)
    have "takeWhile (\<lambda>c. \<not> isspace c) (s' @ e) = w"
      unfolding w using x by (rule takeWhile_append1)
    moreover have "dropWhile (\<lambda>c. \<not> isspace c) (s' @ e) = r @ e"
      unfolding r using x by (rule dropWhile_append1)
    ultimately show ?thesis using ne d1 by (simp add: extract_word_def Let_def)
  next
    case True
    then have all: "\<And>x. x \<in> set s' \<Longrightarrow> \<not> isspace x"
      unfolding r by (simp add: dropWhile_eq_Nil_conv)
    from True assms(2) have e: "e = [] \<or> isspace (hd e)" by simp
    then have te: "takeWhile (\<lambda>c. \<not> isspace c) e = []" and de: "dropWhile (\<lambda>c. \<not> isspace c) e = e"
      by (cases e; auto)+
    have "takeWhile (\<lambda>c. \<not> isspace c) (s' @ e) = s'"
      using takeWhile_append2 [of s' "\<lambda>c. \<not> isspace c" e] all te by simp
    moreover have "w = s'" unfolding w using all by (simp add: takeWhile_eq_all_conv)
    moreover have "dropWhile (\<lambda>c. \<not> isspace c) (s' @ e) = e"
      using dropWhile_append2 [of s' "\<lambda>c. \<not> isspace c" e] all de by simp
    ultimately show ?thesis using ne d1 True by (simp add: extract_word_def Let_def)
  qed
qed

lemma read_header_trailing:
  assumes "extract_word l = Some (w1, r1)" "extract_word r1 = Some (w2, r2)"
    "extract_word r2 = Some (w3, r3)" "r3 \<noteq> [] \<or> e = [] \<or> isspace (hd e)"
  shows "read_header (l @ e) st = read_header l st"
proof -
  have n1: "r1 \<noteq> []" and n2: "r2 \<noteq> []"
    using extract_word_nonempty [OF assms(2)] extract_word_nonempty [OF assms(3)] by simp_all
  have a: "extract_word (l @ e) = Some (w1, r1 @ e)"
    using extract_word_append [OF assms(1)] n1 by simp
  have b: "extract_word (r1 @ e) = Some (w2, r2 @ e)"
    using extract_word_append [OF assms(2)] n2 by simp
  have c: "extract_word (r2 @ e) = Some (w3, r3 @ e)"
    using extract_word_append [OF assms(3) assms(4)] .
  show ?thesis using assms(1-3) a b c by (simp add: read_header_def)
qed


lemma read_header_keyword:
  "extract_word l = Some (w, r) \<Longrightarrow> user_keyword (read_header l st) = w"
  by (simp add: read_header_def split: option.splits prod.splits)

subsection \<open>The top-level failure policy\<close>

text \<open>
  What holds of the policy: with a handler whose \<open>disconnect\<close> never throws, the routine
  returns to \<open>main\<close> whatever else throws. And an endpoint's \<open>start_server\<close> returns
  after logging when \<open>serve\<close> throws a \<open>std::exception\<close>.
\<close>

lemma replay_returns_when_disconnect_returns:
  assumes "\<And>hs sid. fst (disconnect h hs sid) = Returns"
  shows "outcome (run_warmup_queries h fs hs0 sur0 bp p) = Returned"
proof -
  have r: "gc = Returns" if "releaseWarmupSession h st = (gevs, gc, st')" for st gevs gc st'
    using that assms [of "hstate st" "sessionId st"]
    by (auto simp: releaseWarmupSession_def split: prod.splits if_splits)
  show ?thesis
    by (auto simp: run_warmup_queries_unfold Let_def split: prod.splits dest: r)
qed

lemma start_server_catches:
  "start_server (ServeThrowsStd what) = ([''Exception: '' @ what], Returns)"
  by (simp add: start_server_def)

text \<open>
  C2, evaluated where it fails. The script has one block; the handler's \<open>disconnect\<close>
  throws. The call at line 202 throws, so line 203 does not reset \<open>sessionId\<close>; while
  that exception unwinds the \<open>try\<close> block, the cleanup action calls \<open>disconnect\<close> for
  the same session again, and that call throws out of the guard's destructor. The
  process is terminated: the handler at line 211 logs nothing and \<open>run_warmup_queries\<close>
  does not return to \<open>main\<close>.
\<close>

theorem double_fault_terminates_process:
  "run_warmup_queries (scripted_handler Returns Returns Throws)
        (one_file ''warmup.sql'' ''USER a db\<newline>SELECT 1;\<newline>}\<newline>'') 0 False ''data'' ''warmup.sql''
   = \<lparr>events = [LogInfo ''warmup.sql'', FileOpen ''warmup.sql'',
                  Connect True ''a'' [] ''db'' Returns ''s'',
                  SqlExecute ''s'' ''SELECT 1;'' Returns,
                  Disconnect ''s'' Throws, FileClose, Disconnect ''s'' Throws],
       outcome = Terminated, handler_state = 1, handler_super_user_rights = False\<rparr>"
  by code_simp


subsection \<open>Privilege elevation\<close>

text \<open>
  C9, evaluated where it fails. The handler's \<open>connect\<close> throws (an unknown user, say).
  Line 182 has set \<open>super_user_rights_\<close>, line 184 is skipped by the exception, and the
  routine returns to \<open>main\<close> through the handler at line 211 with the flag still set.
\<close>

theorem elevation_kept_when_connect_throws:
  "handler_super_user_rights
     (run_warmup_queries (scripted_handler Throws Returns Returns)
        (one_file ''warmup.sql'' ''USER nobody db\<newline>SELECT 1;\<newline>}\<newline>'') 0 False ''data'' ''warmup.sql'') = True
   \<and> outcome
     (run_warmup_queries (scripted_handler Throws Returns Returns)
        (one_file ''warmup.sql'' ''USER nobody db\<newline>SELECT 1;\<newline>}\<newline>'') 0 False ''data'' ''warmup.sql'') = Returned"
  by code_simp


subsection \<open>Malformed header lines\<close>

text \<open>
  C4, as amended. A line in header position with at least one word whose first word does
  not begin with the four characters \<open>USER\<close> is skipped: the warning is logged with the
  line, and the loop goes on with the next line (the first conjunct, for every handler,
  state and script). And the script of the claim, run with a handler none of whose
  calls throws, gives one warning for the first line, one \<open>connect\<close> for user \<open>a\<close> and
  database \<open>db\<close> with elevated rights and an empty password, one execution of
  \<open>SELECT 1;\<close> and one \<open>disconnect\<close>, on the session that \<open>connect\<close> returned.
\<close>

theorem malformed_header_skipped_with_warning:
  "(getline qf = Some (l, rest) \<and> extract_word l = Some (w, r) \<and> \<not> is_user_keyword w \<longrightarrow>
      warmup_loop h p qf st =
        (case warmup_loop h p rest (read_header l st) of
           (evs, c, st2) \<Rightarrow> (LogSyntaxWarning p l # evs, c, st2)))
   \<and> (never_raises h \<and> p \<noteq> [] \<and>
        fs p = Some ''BADLINE x y\<newline>USER a db\<newline>SELECT 1;\<newline>}\<newline>'' \<longrightarrow>
        events (run_warmup_queries h fs hs0 sur0 bp p) =
          [LogInfo p, FileOpen p, LogSyntaxWarning p ''BADLINE x y'',
           Connect True ''a'' [] ''db'' Returns
             (fst (snd (connect h hs0 True (getInvalidSessionId h) ''a'' [] ''db''))),
           SqlExecute (fst (snd (connect h hs0 True (getInvalidSessionId h) ''a'' [] ''db'')))
             ''SELECT 1;'' Returns,
           Disconnect (fst (snd (connect h hs0 True (getInvalidSessionId h) ''a'' [] ''db'')))
             Returns,
           FileClose])"
proof (intro conjI impI)
  assume a: "getline qf = Some (l, rest) \<and> extract_word l = Some (w, r) \<and> \<not> is_user_keyword w"
  then have ne: "l \<noteq> []" using extract_word_nonempty [of l w r] by simp
  from a have "\<not> is_user_keyword (user_keyword (read_header l st))"
    by (simp add: read_header_keyword)
  with a ne show "warmup_loop h p qf st =
        (case warmup_loop h p rest (read_header l st) of
           (evs, c, st2) \<Rightarrow> (LogSyntaxWarning p l # evs, c, st2))"
    by (simp add: warmup_loop_warn)
next
  assume b: "never_raises h \<and> p \<noteq> [] \<and>
        fs p = Some ''BADLINE x y\<newline>USER a db\<newline>SELECT 1;\<newline>}\<newline>''"
  obtain cc sid hs1 where con: "connect h hs0 True (getInvalidSessionId h) ''a'' [] ''db'' = (cc, sid, hs1)"
    by (cases "connect h hs0 True (getInvalidSessionId h) ''a'' [] ''db''") auto
  obtain ce hs2 where ex: "sql_execute h hs1 sid ''SELECT 1;'' = (ce, hs2)"
    by (cases "sql_execute h hs1 sid ''SELECT 1;''")
  obtain cd hs3 where di: "disconnect h hs2 sid = (cd, hs3)"
    by (cases "disconnect h hs2 sid")
  from b have nr: "never_raises h" by simp
  have cc: "cc = Returns" using nr con unfolding never_raises_def by (metis fst_conv)
  have ce: "ce = Returns" using nr ex unfolding never_raises_def by (metis fst_conv)
  have cd: "cd = Returns" using nr di unfolding never_raises_def by (metis fst_conv)
  show "events (run_warmup_queries h fs hs0 sur0 bp p) =
          [LogInfo p, FileOpen p, LogSyntaxWarning p ''BADLINE x y'',
           Connect True ''a'' [] ''db'' Returns
             (fst (snd (connect h hs0 True (getInvalidSessionId h) ''a'' [] ''db''))),
           SqlExecute (fst (snd (connect h hs0 True (getInvalidSessionId h) ''a'' [] ''db'')))
             ''SELECT 1;'' Returns,
           Disconnect (fst (snd (connect h hs0 True (getInvalidSessionId h) ''a'' [] ''db'')))
             Returns,
           FileClose]"
    using b con [unfolded cc] ex [unfolded ce] di [unfolded cd]
    by (simp add: run_warmup_queries_unfold warmup_loop.simps query_loop.simps getline_def
          read_header_def extract_word_def isspace_def is_user_keyword_def
          releaseWarmupSession_def Let_def)
qed

theorem malformed_header_skipped_with_warning_witness:
  "(getline ''BADLINE x y\<newline>USER a db\<newline>'' = Some (''BADLINE x y'', ''USER a db\<newline>'')
      \<and> extract_word ''BADLINE x y'' = Some (''BADLINE'', '' x y'')
      \<and> \<not> is_user_keyword ''BADLINE'')
   \<and> warmup_loop (scripted_handler Returns Returns Returns) ''warmup.sql''
         ''BADLINE x y\<newline>USER a db\<newline>''
         \<lparr>hstate = 0, super_user_rights = False, sessionId = ''INVALID_SESSION_ID'',
          user_keyword = [], user_name = [], db_name = []\<rparr>
       = (case warmup_loop (scripted_handler Returns Returns Returns) ''warmup.sql''
                 ''USER a db\<newline>''
                 (read_header ''BADLINE x y''
                    \<lparr>hstate = 0, super_user_rights = False, sessionId = ''INVALID_SESSION_ID'',
                     user_keyword = [], user_name = [], db_name = []\<rparr>) of
            (evs, c, st2) \<Rightarrow> (LogSyntaxWarning ''warmup.sql'' ''BADLINE x y'' # evs, c, st2))
   \<and> (never_raises (scripted_handler Returns Returns Returns) \<and> ''warmup.sql'' \<noteq> []
      \<and> one_file ''warmup.sql'' ''BADLINE x y\<newline>USER a db\<newline>SELECT 1;\<newline>}\<newline>'' ''warmup.sql''
           = Some ''BADLINE x y\<newline>USER a db\<newline>SELECT 1;\<newline>}\<newline>'')
   \<and> events (run_warmup_queries (scripted_handler Returns Returns Returns)
         (one_file ''warmup.sql'' ''BADLINE x y\<newline>USER a db\<newline>SELECT 1;\<newline>}\<newline>'')
         0 False ''data'' ''warmup.sql'')
       = [LogInfo ''warmup.sql'', FileOpen ''warmup.sql'',
          LogSyntaxWarning ''warmup.sql'' ''BADLINE x y'',
          Connect True ''a'' [] ''db'' Returns ''s'',
          SqlExecute ''s'' ''SELECT 1;'' Returns, Disconnect ''s'' Returns, FileClose]"
  using malformed_header_skipped_with_warning
    [of "''BADLINE x y\<newline>USER a db\<newline>''" "''BADLINE x y''" "''USER a db\<newline>''"
        "''BADLINE''" "'' x y''" "scripted_handler Returns Returns Returns" "''warmup.sql''"
        "\<lparr>hstate = 0, super_user_rights = False, sessionId = ''INVALID_SESSION_ID'',
          user_keyword = [], user_name = [], db_name = []\<rparr>"
        "one_file ''warmup.sql'' ''BADLINE x y\<newline>USER a db\<newline>SELECT 1;\<newline>}\<newline>''"
        0 False "''data''"]
  by (simp add: getline_def extract_word_def isspace_def is_user_keyword_def never_raises_def
        scripted_handler_def one_file_def)

text \<open>
  C4 as stated fails: \<open>USERS\<close> is not the keyword \<open>USER\<close>, but the comparison at line 180
  looks at its first four characters only, so the line opens a session for user \<open>a\<close> and
  no warning is logged.
\<close>

theorem users_header_counterexample:
  "extract_word ''USERS a db'' = Some (''USERS'', '' a db'') \<and> ''USERS'' \<noteq> ''USER''
   \<and> events (run_warmup_queries (scripted_handler Returns Returns Returns)
        (one_file ''warmup.sql'' ''USERS a db\<newline>SELECT 1;\<newline>}\<newline>'') 0 False ''data'' ''warmup.sql'')
     = [LogInfo ''warmup.sql'', FileOpen ''warmup.sql'',
        Connect True ''a'' [] ''db'' Returns ''s'', SqlExecute ''s'' ''SELECT 1;'' Returns,
        Disconnect ''s'' Returns, FileClose]"
  by code_simp


subsection \<open>Text after the third word of a header line\<close>

lemma warmup_loop_first_connect:
  assumes "getline qf = Some (l, rest)" and "l \<noteq> []"
    and "is_user_keyword (user_keyword (read_header l st))"
  shows "take 1 (fst (warmup_loop h p qf st)) =
           [Connect True (user_name (read_header l st)) [] (db_name (read_header l st))
              (fst (connect h (hstate st) True (sessionId st)
                      (user_name (read_header l st)) [] (db_name (read_header l st))))
              (fst (snd (connect h (hstate st) True (sessionId st)
                      (user_name (read_header l st)) [] (db_name (read_header l st)))))]"
  using assms
  by (simp add: warmup_loop.simps [of h p qf] Let_def split: prod.splits completion.splits)

text \<open>
  C10. A header line \<open>l\<close> with three words \<open>w1\<close>, \<open>w2\<close>, \<open>w3\<close>, and any text \<open>e\<close> put after
  it on the same line (when the third word ends the line, \<open>e\<close> starts with whitespace,
  as it would otherwise be part of that word). From any state in header position and
  whatever follows in the script:
  \<^item> reading the line with \<open>e\<close> sets the keyword, the user name and the database name
    to \<open>w1\<close>, \<open>w2\<close> and \<open>w3\<close>, and changes nothing else of the state;
  \<^item> when \<open>w1\<close> passes the keyword test, the first thing the replay does is the
    \<open>connect\<close> call for user \<open>w2\<close> and database \<open>w3\<close>, with elevated rights and an
    empty password, so the session opened is the one that call leaves;
  \<^item> the replay makes the same calls into the handler, ends the same way and leaves
    the same state with and without \<open>e\<close>. Only the text of the warning for a line that
    is skipped shows \<open>e\<close>.
\<close>

theorem header_trailing_text_ignored:
  assumes "extract_word l = Some (w1, r1)" and "extract_word r1 = Some (w2, r2)"
    and "extract_word r2 = Some (w3, r3)"
    and "r3 \<noteq> [] \<or> e = [] \<or> isspace (hd e)"
    and "CHR 0x0A \<notin> set l" and "CHR 0x0A \<notin> set e"
  shows "read_header (l @ e) st = st\<lparr>user_keyword := w1, user_name := w2, db_name := w3\<rparr>
       \<and> (is_user_keyword w1 \<longrightarrow>
            take 1 (fst (warmup_loop h p (l @ e @ CHR 0x0A # later) st))
              = [Connect True w2 [] w3
                   (fst (connect h (hstate st) True (sessionId st) w2 [] w3))
                   (fst (snd (connect h (hstate st) True (sessionId st) w2 [] w3)))])
       \<and> filter is_handler_call (fst (warmup_loop h p (l @ e @ CHR 0x0A # later) st))
           = filter is_handler_call (fst (warmup_loop h p (l @ CHR 0x0A # later) st))
       \<and> snd (warmup_loop h p (l @ e @ CHR 0x0A # later) st)
           = snd (warmup_loop h p (l @ CHR 0x0A # later) st)"
proof -
  have ne: "l \<noteq> []" using extract_word_nonempty [OF assms(1)] by simp
  have g1: "getline (l @ e @ CHR 0x0A # later) = Some (l @ e, later)"
    using getline_line [of "l @ e" later] assms(5,6) by simp
  have g2: "getline (l @ CHR 0x0A # later) = Some (l, later)"
    using getline_line [of l later] assms(5) by simp
  have rh: "read_header (l @ e) st = read_header l st"
    using read_header_trailing [OF assms(1-4)] .
  have rl: "read_header l st = st\<lparr>user_keyword := w1, user_name := w2, db_name := w3\<rparr>"
    using assms(1-3) by (simp add: read_header_def)
  have first: "take 1 (fst (warmup_loop h p (l @ e @ CHR 0x0A # later) st))
              = [Connect True w2 [] w3
                   (fst (connect h (hstate st) True (sessionId st) w2 [] w3))
                   (fst (snd (connect h (hstate st) True (sessionId st) w2 [] w3)))]"
    if kw: "is_user_keyword w1"
    using warmup_loop_first_connect [OF g1, of st h p] ne kw by (simp add: rh rl)
  have same: "filter is_handler_call (fst (warmup_loop h p (l @ e @ CHR 0x0A # later) st))
           = filter is_handler_call (fst (warmup_loop h p (l @ CHR 0x0A # later) st))
       \<and> snd (warmup_loop h p (l @ e @ CHR 0x0A # later) st)
           = snd (warmup_loop h p (l @ CHR 0x0A # later) st)"
  proof (cases "is_user_keyword (user_keyword (read_header l st))")
    case True
    have "warmup_loop h p (l @ e @ CHR 0x0A # later) st = warmup_loop h p (l @ CHR 0x0A # later) st"
      using True ne
      by (simp add: warmup_loop.simps [of h p "l @ e @ CHR 0x0A # later"]
            warmup_loop.simps [of h p "l @ CHR 0x0A # later"] g1 g2 rh Let_def)
    then show ?thesis by simp
  next
    case False
    obtain evs c st2 where rec: "warmup_loop h p later (read_header l st) = (evs, c, st2)"
      by (cases "warmup_loop h p later (read_header l st)") auto
    have a: "warmup_loop h p (l @ e @ CHR 0x0A # later) st = (LogSyntaxWarning p (l @ e) # evs, c, st2)"
      using warmup_loop_warn [OF g1, of st h p] ne False rec by (simp add: rh)
    have b: "warmup_loop h p (l @ CHR 0x0A # later) st = (LogSyntaxWarning p l # evs, c, st2)"
      using warmup_loop_warn [OF g2 ne False, of h p] rec by simp
    show ?thesis by (simp add: a b)
  qed
  show ?thesis using rh rl first same by simp
qed

theorem header_trailing_text_ignored_witness:
  "(extract_word ''USER a db'' = Some (''USER'', '' a db'')
      \<and> extract_word '' a db'' = Some (''a'', '' db'')
      \<and> extract_word '' db'' = Some (''db'', [])
      \<and> isspace (hd '' with trailing words'')
      \<and> CHR 0x0A \<notin> set ''USER a db'' \<and> CHR 0x0A \<notin> set '' with trailing words'')
   \<and> read_header (''USER a db'' @ '' with trailing words'')
        \<lparr>hstate = 0, super_user_rights = False, sessionId = ''INVALID_SESSION_ID'',
         user_keyword = [], user_name = [], db_name = []\<rparr>
     = \<lparr>hstate = (0::nat), super_user_rights = False, sessionId = ''INVALID_SESSION_ID'',
        user_keyword = ''USER'', user_name = ''a'', db_name = ''db''\<rparr>
   \<and> is_user_keyword ''USER''
   \<and> take 1 (fst (warmup_loop (scripted_handler Returns Returns Returns) ''warmup.sql''
           (''USER a db'' @ '' with trailing words'' @ CHR 0x0A # ''SELECT 1;\<newline>}\<newline>'')
           \<lparr>hstate = 0, super_user_rights = False, sessionId = ''INVALID_SESSION_ID'',
            user_keyword = [], user_name = [], db_name = []\<rparr>))
     = [Connect True ''a'' [] ''db'' Returns ''s'']
   \<and> filter is_handler_call
        (fst (warmup_loop (scripted_handler Returns Returns Returns) ''warmup.sql''
           (''USER a db'' @ '' with trailing words'' @ CHR 0x0A # ''SELECT 1;\<newline>}\<newline>'')
           \<lparr>hstate = 0, super_user_rights = False, sessionId = ''INVALID_SESSION_ID'',
            user_keyword = [], user_name = [], db_name = []\<rparr>))
     = filter is_handler_call
        (fst (warmup_loop (scripted_handler Returns Returns Returns) ''warmup.sql''
           (''USER a db'' @ CHR 0x0A # ''SELECT 1;\<newline>}\<newline>'')
           \<lparr>hstate = 0, super_user_rights = False, sessionId = ''INVALID_SESSION_ID'',
            user_keyword = [], user_name = [], db_name = []\<rparr>))
   \<and> snd (warmup_loop (scripted_handler Returns Returns Returns) ''warmup.sql''
           (''USER a db'' @ '' with trailing words'' @ CHR 0x0A # ''SELECT 1;\<newline>}\<newline>'')
           \<lparr>hstate = 0, super_user_rights = False, sessionId = ''INVALID_SESSION_ID'',
            user_keyword = [], user_name = [], db_name = []\<rparr>)
     = snd (warmup_loop (scripted_handler Returns Returns Returns) ''warmup.sql''
           (''USER a db'' @ CHR 0x0A # ''SELECT 1;\<newline>}\<newline>'')
           \<lparr>hstate = 0, super_user_rights = False, sessionId = ''INVALID_SESSION_ID'',
            user_keyword = [], user_name = [], db_name = []\<rparr>)"
  using header_trailing_text_ignored
    [of "''USER a db''" "''USER''" "'' a db''" "''a''" "'' db''" "''db''" "[]"
        "'' with trailing words''"
        "\<lparr>hstate = 0, super_user_rights = False, sessionId = ''INVALID_SESSION_ID'',
          user_keyword = [], user_name = [], db_name = []\<rparr>"
        "scripted_handler Returns Returns Returns" "''warmup.sql''"
        "''SELECT 1;\<newline>}\<newline>''"]
  by (simp add: extract_word_def isspace_def is_user_keyword_def scripted_handler_def)

subsection \<open>Well-formed scripts\<close>


































section \<open>Properties of the start-up\<close>

subsection \<open>Decimal text\<close>

lemma digit_value_char: "d < 10 \<Longrightarrow> digit_value (digit_char d) = d"
proof -
  assume "d < 10"
  then have "d \<in> set [0, 1, 2, 3, 4, 5, 6, 7, 8, 9]" by (simp; arith)
  then show ?thesis by (auto simp: digit_value_def digit_char_def)
qed

lemma decimal_value_snoc: "decimal_value (s @ [c]) = 10 * decimal_value s + digit_value c"
  by (simp add: decimal_value_def)

lemma decimal_value_decimal: "decimal_value (decimal n) = n"
proof (induction n rule: decimal.induct)
  case (1 n)
  show ?case
  proof (cases "n < 10")
    case True
    then show ?thesis
      by (simp add: decimal.simps [of n] decimal_value_def digit_value_char)
  next
    case False
    have "decimal_value (decimal n) = 10 * decimal_value (decimal (n div 10)) + n mod 10"
      using False by (simp add: decimal.simps [of n] decimal_value_snoc digit_value_char)
    also have "\<dots> = 10 * (n div 10) + n mod 10" using "1.IH" [OF False] by simp
    finally show ?thesis by simp
  qed
qed

subsection \<open>The stages, one by one\<close>

lemma fst_and_then:
  "fst (and_then s f) = fst s @ (case snd s of Inl e \<Rightarrow> [] | Inr a \<Rightarrow> fst (f a))"
  by (simp add: and_then_def split: prod.splits sum.splits)

lemma snd_and_then:
  "snd (and_then s f) = (case snd s of Inl e \<Rightarrow> Inl e | Inr a \<Rightarrow> snd (f a))"
  by (simp add: and_then_def split: prod.splits sum.splits)

lemma cluster_stage_phase:
  "e \<in> set (fst (cluster_stage opts env)) \<Longrightarrow> startup_phase e = 0"
  by (auto simp: cluster_stage_def Let_def split: if_splits)

lemma options_stage_phase:
  "e \<in> set (fst (options_stage opts env)) \<Longrightarrow> startup_phase e = 0"
  by (auto simp: options_stage_def fst_and_then dest: cluster_stage_phase
           split: if_splits sum.splits)

lemma precondition_stage_phase:
  "e \<in> set (fst (precondition_stage opts env)) \<Longrightarrow> startup_phase e = 1"
  by (auto simp: precondition_stage_def Let_def split: if_splits)

lemma lock_stage_phase:
  "e \<in> set (fst (lock_stage opts env)) \<Longrightarrow> startup_phase e = 2"
  by (auto simp: lock_stage_def Let_def split: if_splits)





lemma cluster_stage_events:
  "fst (cluster_stage opts env) =
     (if opt_cluster opts \<or> opt_string_servers opts then
        if opt_cluster opts = opt_string_servers opts then [CheckFailed]
        else [ParseClusterConfig (trim_quotes (cluster_file opts))]
      else [])"
  by (simp add: cluster_stage_def Let_def)



lemma precondition_stage_passes:
  "precondition_stage opts env = (evs, Inr u) \<Longrightarrow> evs = []"
  by (auto simp: precondition_stage_def Let_def split: if_splits)




lemma lock_stage_contention:
  "sys_open env (path_append (trim_quotes (base_path opts)) ''mapd_server_pid.lck'') \<noteq> - 1 \<Longrightarrow>
   sys_lockf env (sys_open env (path_append (trim_quotes (base_path opts)) ''mapd_server_pid.lck'')) = - 1 \<Longrightarrow>
   lock_stage opts env =
     ([SysOpen (path_append (trim_quotes (base_path opts)) ''mapd_server_pid.lck'')
         [O_RDWR, O_CREAT] mode_0644,
       SysLockf (sys_open env (path_append (trim_quotes (base_path opts)) ''mapd_server_pid.lck''))
         F_TLOCK 0,
       Print (AnotherServer (trim_quotes (base_path opts))),
       SysClose (sys_open env (path_append (trim_quotes (base_path opts)) ''mapd_server_pid.lck''))],
      Inl (Return 1))"
  by (simp add: lock_stage_def Let_def)





lemma main_cases:
  obtains
    (options) evs e where
      "options_stage opts env = (evs, Inl e)" "main opts env h hs0 sur0 = (evs, e)"
  | (precondition) evs0 t evs1 e where
      "options_stage opts env = (evs0, Inr t)" "precondition_stage opts env = (evs1, Inl e)"
      "main opts env h hs0 sur0 = (evs0 @ evs1, e)"
  | (lock) evs0 t evs1 evs2 e where
      "options_stage opts env = (evs0, Inr t)" "precondition_stage opts env = (evs1, Inr ())"
      "lock_stage opts env = (evs2, Inl e)"
      "main opts env h hs0 sur0 = (evs0 @ evs1 @ evs2, e)"
  | (logging) evs0 t evs1 evs2 evs3 e where
      "options_stage opts env = (evs0, Inr t)" "precondition_stage opts env = (evs1, Inr ())"
      "lock_stage opts env = (evs2, Inr ())" "logging_stage opts env = (evs3, Inl e)"
      "main opts env h hs0 sur0 = (evs0 @ evs1 @ evs2 @ evs3, e)"
  | (serve) evs0 t evs1 evs2 evs3 evs4 e where
      "options_stage opts env = (evs0, Inr t)" "precondition_stage opts env = (evs1, Inr ())"
      "lock_stage opts env = (evs2, Inr ())" "logging_stage opts env = (evs3, Inr ())"
      "serve_stage opts env h hs0 sur0 t = (evs4, e)"
      "main opts env h hs0 sur0 = (evs0 @ evs1 @ evs2 @ evs3 @ evs4, e)"
proof -
  obtain evs0 r0 where s0: "options_stage opts env = (evs0, r0)"
    by (cases "options_stage opts env")
  obtain evs1 r1 where s1: "precondition_stage opts env = (evs1, r1)"
    by (cases "precondition_stage opts env")
  obtain evs2 r2 where s2: "lock_stage opts env = (evs2, r2)"
    by (cases "lock_stage opts env")
  obtain evs3 r3 where s3: "logging_stage opts env = (evs3, r3)"
    by (cases "logging_stage opts env")
  show thesis
  proof (cases r0)
    case (Inl e)
    with s0 have "main opts env h hs0 sur0 = (evs0, e)"
      by (simp add: main_def and_then_def)
    with s0 Inl show ?thesis by (auto intro: options)
  next
    case t: (Inr t)
    show ?thesis
    proof (cases r1)
      case (Inl e)
      with s0 t s1 have "main opts env h hs0 sur0 = (evs0 @ evs1, e)"
        by (simp add: main_def and_then_def)
      with s0 t s1 Inl show ?thesis by (auto intro: precondition)
    next
      case u1: (Inr u1)
      show ?thesis
      proof (cases r2)
        case (Inl e)
        with s0 t s1 u1 s2 have "main opts env h hs0 sur0 = (evs0 @ evs1 @ evs2, e)"
          by (simp add: main_def and_then_def)
        with s0 t s1 u1 s2 Inl show ?thesis by (auto intro: lock)
      next
        case u2: (Inr u2)
        show ?thesis
        proof (cases r3)
          case (Inl e)
          with s0 t s1 u1 s2 u2 s3 have "main opts env h hs0 sur0 = (evs0 @ evs1 @ evs2 @ evs3, e)"
            by (simp add: main_def and_then_def)
          with s0 t s1 u1 s2 u2 s3 Inl show ?thesis by (auto intro: logging)
        next
          case u3: (Inr u3)
          obtain evs4 e where s4: "serve_stage opts env h hs0 sur0 t = (evs4, e)"
            by (cases "serve_stage opts env h hs0 sur0 t")
          with s0 t s1 u1 s2 u2 s3 u3
          have "main opts env h hs0 sur0 = (evs0 @ evs1 @ evs2 @ evs3 @ evs4, e)"
            by (simp add: main_def and_then_def)
          with s0 t s1 u1 s2 u2 s3 u3 s4 show ?thesis by (auto intro: serve)
        qed
      qed
    qed
  qed
qed





lemma main_stops_at_lock_phase:
  assumes "sys_open env (path_append (trim_quotes (base_path opts)) ''mapd_server_pid.lck'') \<noteq> - 1"
    and "sys_lockf env (sys_open env (path_append (trim_quotes (base_path opts)) ''mapd_server_pid.lck'')) = - 1"
    and "e \<in> set (fst (main opts env h hs0 sur0))"
  shows "startup_phase e \<le> 2"
proof (cases rule: main_cases [of opts env h hs0 sur0])
  case (options evs x)
  with assms(3) options_stage_phase [of e opts env] show ?thesis by simp
next
  case (precondition evs0 t evs1 x)
  with assms(3) options_stage_phase [of e opts env] precondition_stage_phase [of e opts env]
  show ?thesis by auto
next
  case (lock evs0 t evs1 evs2 x)
  with assms(3) options_stage_phase [of e opts env] precondition_stage_phase [of e opts env]
    lock_stage_phase [of e opts env]
  show ?thesis by auto
next
  case (logging evs0 t evs1 evs2 evs3 x)
  with lock_stage_contention [OF assms(1,2)] show ?thesis by simp
next
  case (serve evs0 t evs1 evs2 evs3 evs4 x)
  with lock_stage_contention [OF assms(1,2)] show ?thesis by simp
qed


subsection \<open>The instance lock\<close>

text \<open>
  C6. With \<open>lock_file\<close> the file \<open>mapd_server_pid.lck\<close> inside the data directory and
  \<open>pid_fd\<close> what \<open>open\<close> returns for it:
  \<^item> when the four calls succeed, lock acquisition is \<open>open(lock_file, O_RDWR | O_CREAT,
    0644)\<close>, \<open>lockf(pid_fd, F_TLOCK, 0)\<close>, \<open>ftruncate(pid_fd, 0)\<close> and the \<open>write\<close> of
    \<open>std::to_string(getpid())\<close>, in this order;
  \<^item> that text is the process id in decimal;
  \<^item> when \<open>lockf\<close> fails, the message that names the data directory is printed, the
    descriptor is closed and the process exits with code 1; \<open>main\<close> then starts no
    endpoint thread and runs no warm-up, and when option processing and the
    preconditions let \<open>main\<close> reach the lock, nothing at all follows the \<open>close\<close>.
\<close>

theorem instance_lock_acquisition:
  assumes "lock_file = path_append (trim_quotes (base_path opts)) ''mapd_server_pid.lck''"
    and "pid_fd = sys_open env lock_file"
  shows "(pid_fd \<noteq> - 1 \<and> sys_lockf env pid_fd \<noteq> - 1 \<and> sys_ftruncate env pid_fd \<noteq> - 1
            \<and> sys_write env pid_fd (to_string (getpid env)) \<noteq> - 1 \<longrightarrow>
          lock_stage opts env =
            ([SysOpen lock_file [O_RDWR, O_CREAT] mode_0644, SysLockf pid_fd F_TLOCK 0,
              SysFtruncate pid_fd 0, SysWrite pid_fd (to_string (getpid env))], Inr ()))
       \<and> (0 \<le> getpid env \<longrightarrow> int (decimal_value (to_string (getpid env))) = getpid env)
       \<and> (pid_fd \<noteq> - 1 \<and> sys_lockf env pid_fd = - 1 \<longrightarrow>
            lock_stage opts env =
              ([SysOpen lock_file [O_RDWR, O_CREAT] mode_0644, SysLockf pid_fd F_TLOCK 0,
                Print (AnotherServer (trim_quotes (base_path opts))), SysClose pid_fd],
               Inl (Return 1))
          \<and> StartThread ep \<notin> set (fst (main opts env h hs0 sur0))
          \<and> Warmup w \<notin> set (fst (main opts env h hs0 sur0))
          \<and> (options_stage opts env = (evs0, Inr t) \<and> precondition_stage opts env = (evs1, Inr ()) \<longrightarrow>
                main opts env h hs0 sur0 =
                  (evs0 @ [SysOpen lock_file [O_RDWR, O_CREAT] mode_0644, SysLockf pid_fd F_TLOCK 0,
                           Print (AnotherServer (trim_quotes (base_path opts))), SysClose pid_fd],
                   Return 1)))"
proof (intro conjI impI)
  assume "pid_fd \<noteq> - 1 \<and> sys_lockf env pid_fd \<noteq> - 1 \<and> sys_ftruncate env pid_fd \<noteq> - 1
            \<and> sys_write env pid_fd (to_string (getpid env)) \<noteq> - 1"
  then show "lock_stage opts env =
            ([SysOpen lock_file [O_RDWR, O_CREAT] mode_0644, SysLockf pid_fd F_TLOCK 0,
              SysFtruncate pid_fd 0, SysWrite pid_fd (to_string (getpid env))], Inr ())"
    using assms by (simp add: lock_stage_def Let_def)
next
  assume "0 \<le> getpid env"
  then show "int (decimal_value (to_string (getpid env))) = getpid env"
    by (simp add: to_string_def decimal_value_decimal)
next
  assume c: "pid_fd \<noteq> - 1 \<and> sys_lockf env pid_fd = - 1"
  then have c1: "sys_open env (path_append (trim_quotes (base_path opts)) ''mapd_server_pid.lck'') \<noteq> - 1"
    and c2: "sys_lockf env (sys_open env (path_append (trim_quotes (base_path opts)) ''mapd_server_pid.lck'')) = - 1"
    using assms by simp_all
  note ls = lock_stage_contention [OF c1 c2]
  show l: "lock_stage opts env =
              ([SysOpen lock_file [O_RDWR, O_CREAT] mode_0644, SysLockf pid_fd F_TLOCK 0,
                Print (AnotherServer (trim_quotes (base_path opts))), SysClose pid_fd],
               Inl (Return 1))"
    using ls assms by simp
  show "StartThread ep \<notin> set (fst (main opts env h hs0 sur0))"
    using main_stops_at_lock_phase [OF c1 c2, of "StartThread ep" h hs0 sur0] by auto
  show "Warmup w \<notin> set (fst (main opts env h hs0 sur0))"
    using main_stops_at_lock_phase [OF c1 c2, of "Warmup w" h hs0 sur0] by auto
  assume r: "options_stage opts env = (evs0, Inr t) \<and> precondition_stage opts env = (evs1, Inr ())"
  then have "evs1 = []" using precondition_stage_passes [of opts env evs1 "()"] by simp
  with r l show "main opts env h hs0 sur0 =
                  (evs0 @ [SysOpen lock_file [O_RDWR, O_CREAT] mode_0644, SysLockf pid_fd F_TLOCK 0,
                           Print (AnotherServer (trim_quotes (base_path opts))), SysClose pid_fd],
                   Return 1)"
    by (simp add: main_def and_then_def)
qed

theorem instance_lock_acquisition_witness:
  "(sys_open (example_environment 0) ''data/mapd_server_pid.lck'' \<noteq> - 1
      \<and> sys_lockf (example_environment 0) 3 \<noteq> - 1
      \<and> sys_ftruncate (example_environment 0) 3 \<noteq> - 1
      \<and> sys_write (example_environment 0) 3 (to_string (getpid (example_environment 0))) \<noteq> - 1)
   \<and> lock_stage example_options (example_environment 0)
       = ([SysOpen ''data/mapd_server_pid.lck'' [O_RDWR, O_CREAT] mode_0644, SysLockf 3 F_TLOCK 0,
           SysFtruncate 3 0, SysWrite 3 ''4711''], Inr ())
   \<and> 0 \<le> getpid (example_environment 0)
   \<and> int (decimal_value ''4711'') = 4711
   \<and> sys_lockf (example_environment (- 1)) 3 = - 1
   \<and> options_stage example_options (example_environment (- 1))
       = ([ParseClusterConfig ''cluster.conf''],
          Inr \<lparr>db_leaves = [\<lparr>getHost = ''leaf1'', getPort = 9091, getRole = DbLeaf\<rparr>],
               string_leaves = [\<lparr>getHost = ''dict1'', getPort = 10301, getRole = String\<rparr>],
               g_cluster = True\<rparr>)
   \<and> precondition_stage example_options (example_environment (- 1)) = ([], Inr ())
   \<and> main example_options (example_environment (- 1))
        (scripted_handler Returns Returns Returns) 0 False
       = ([ParseClusterConfig ''cluster.conf'',
           SysOpen ''data/mapd_server_pid.lck'' [O_RDWR, O_CREAT] mode_0644, SysLockf 3 F_TLOCK 0,
           Print (AnotherServer ''data''), SysClose 3],
          Return 1)
   \<and> StartThread BufServer \<notin> set (fst (main example_options (example_environment (- 1))
        (scripted_handler Returns Returns Returns) 0 False))
   \<and> Warmup (LogInfo ''warmup.sql'') \<notin> set (fst (main example_options (example_environment (- 1))
        (scripted_handler Returns Returns Returns) 0 False))"
  using instance_lock_acquisition [of "''data/mapd_server_pid.lck''" example_options 3
          "example_environment 0"]
        instance_lock_acquisition [of "''data/mapd_server_pid.lck''" example_options 3
          "example_environment (- 1)" BufServer "scripted_handler Returns Returns Returns" 0 False
          "LogInfo ''warmup.sql''" "[ParseClusterConfig ''cluster.conf'']"
          "\<lparr>db_leaves = [\<lparr>getHost = ''leaf1'', getPort = 9091, getRole = DbLeaf\<rparr>],
               string_leaves = [\<lparr>getHost = ''dict1'', getPort = 10301, getRole = String\<rparr>],
               g_cluster = True\<rparr>" "[]"]
  by (simp add: options_stage_def and_then_def cluster_stage_def
        precondition_stage_def 
        example_options_def example_environment_def trim_quotes_def path_append_def
        to_string_def decimal.simps digit_char_def only_db_leaves_def only_string_leaves_def
        Let_def)


subsection \<open>The partition of the cluster members\<close>

text \<open>
  C7. When a cluster flag is present and \<open>CHECK_NE\<close> lets the process live (exactly one
  of the two flags is given), then, for whatever the cluster file parses to:
  \<open>db_leaves\<close> and \<open>string_leaves\<close> have no member in common; a parsed member with role
  \<open>DbLeaf\<close> is in \<open>db_leaves\<close> iff \<open>--cluster\<close> was given; every parsed member with role
  \<open>String\<close> is in \<open>string_leaves\<close>, under either flag; a member with another role is in
  neither; both lists hold parsed members only, and \<open>g_cluster\<close> is set.
\<close>

theorem cluster_partition:
  assumes "cluster_stage opts env = (evs, Inr t)"
    and "opt_cluster opts \<or> opt_string_servers opts"
  shows "set (db_leaves t) \<inter> set (string_leaves t) = {}
       \<and> (\<forall>leaf \<in> set (parseClusterConfig env (trim_quotes (cluster_file opts))).
            (getRole leaf = DbLeaf \<longrightarrow> (leaf \<in> set (db_leaves t) \<longleftrightarrow> opt_cluster opts))
          \<and> (getRole leaf = String \<longrightarrow> leaf \<in> set (string_leaves t))
          \<and> (getRole leaf \<noteq> DbLeaf \<and> getRole leaf \<noteq> String \<longrightarrow>
                leaf \<notin> set (db_leaves t) \<and> leaf \<notin> set (string_leaves t)))
       \<and> set (db_leaves t) \<subseteq> set (parseClusterConfig env (trim_quotes (cluster_file opts)))
       \<and> set (string_leaves t) \<subseteq> set (parseClusterConfig env (trim_quotes (cluster_file opts)))
       \<and> g_cluster t"
proof -
  from assms have t: "t = \<lparr>db_leaves = (if opt_cluster opts
                  then only_db_leaves (parseClusterConfig env (trim_quotes (cluster_file opts)))
                  else []),
             string_leaves = only_string_leaves (parseClusterConfig env (trim_quotes (cluster_file opts))),
             g_cluster = True\<rparr>"
    by (auto simp: cluster_stage_def Let_def split: if_splits)
  show ?thesis
    unfolding t by (auto simp: only_db_leaves_def only_string_leaves_def)
qed

theorem cluster_partition_witness:
  "cluster_stage example_options (example_environment 0)
     = ([ParseClusterConfig ''cluster.conf''],
        Inr \<lparr>db_leaves = [\<lparr>getHost = ''leaf1'', getPort = 9091, getRole = DbLeaf\<rparr>],
             string_leaves = [\<lparr>getHost = ''dict1'', getPort = 10301, getRole = String\<rparr>],
             g_cluster = True\<rparr>)
   \<and> opt_cluster example_options
   \<and> set [\<lparr>getHost = ''leaf1'', getPort = 9091, getRole = DbLeaf\<rparr>]
        \<inter> set [\<lparr>getHost = ''dict1'', getPort = 10301, getRole = String\<rparr>] = {}
   \<and> \<lparr>getHost = ''agg'', getPort = 9091, getRole = Aggregator\<rparr>
        \<notin> set [\<lparr>getHost = ''leaf1'', getPort = 9091, getRole = DbLeaf\<rparr>]
   \<and> \<lparr>getHost = ''agg'', getPort = 9091, getRole = Aggregator\<rparr>
        \<notin> set [\<lparr>getHost = ''dict1'', getPort = 10301, getRole = String\<rparr>]"
  using cluster_partition [of example_options "example_environment 0"
      "[ParseClusterConfig ''cluster.conf'']"
      "\<lparr>db_leaves = [\<lparr>getHost = ''leaf1'', getPort = 9091, getRole = DbLeaf\<rparr>],
             string_leaves = [\<lparr>getHost = ''dict1'', getPort = 10301, getRole = String\<rparr>],
             g_cluster = True\<rparr>"]
  by (simp add: cluster_stage_def example_options_def example_environment_def trim_quotes_def
        only_db_leaves_def only_string_leaves_def Let_def)

subsection \<open>The order of the start-up steps\<close>








end
